theory Spec2Isabelle
  imports Main
begin

section \<open>JavaScript values used by the message service\<close>

text \<open>
  The service (\<^verbatim>\<open>services/messageService.ts\<close>) computes with JavaScript numbers.
  Every number it handles is either an integer or \<^verbatim>\<open>NaN\<close> (the result of
  \<^verbatim>\<open>parseInt\<close> on a string without digits), so a number is modelled as an
  unbounded integer or \<open>NaN\<close>. Integers beyond \<open>2^53\<close>, where doubles round, fractional
  counts, the array length limit and memory exhaustion are outside the model.
\<close>

datatype number = NaN | Num int

text \<open>
  The arithmetic of the model is that of the integers. The service computes on doubles,
  which agree with it on the safe integers, those of absolute value at most
  \<^verbatim>\<open>Number.MAX_SAFE_INTEGER\<close> \<open>= 2^53 - 1\<close>. Beyond them the code rounds
  (\<^verbatim>\<open>parseInt\<close> of \<open>2^53 + 1\<close> is \<open>2^53\<close>, and \<open>10^21 - 2\<close> is \<open>10^21\<close>) and
  \<^verbatim>\<open>toString\<close> prints exponent notation from \<open>10^21\<close> on, which \<open>parseInt\<close>, \<open>js_add\<close>,
  \<open>js_sub\<close> and \<open>toString\<close> below do not follow: what they compute is what the code
  computes where their arguments and results are safe integers.
\<close>

definition MAX_SAFE_INTEGER :: int where
  "MAX_SAFE_INTEGER = 2 ^ 53 - 1"

text \<open>\<^verbatim>\<open>a + b\<close>, \<^verbatim>\<open>a - b\<close>, \<^verbatim>\<open>Math.min\<close>, \<^verbatim>\<open>Math.max\<close>,
  \<^verbatim>\<open>a < b\<close> and \<^verbatim>\<open>a > b\<close>: \<open>NaN\<close> is contagious and compares false.\<close>

fun js_add :: "number \<Rightarrow> number \<Rightarrow> number" where
  "js_add (Num a) (Num b) = Num (a + b)"
| "js_add _ _ = NaN"

fun js_sub :: "number \<Rightarrow> number \<Rightarrow> number" where
  "js_sub (Num a) (Num b) = Num (a - b)"
| "js_sub _ _ = NaN"

fun Math_min :: "number \<Rightarrow> number \<Rightarrow> number" where
  "Math_min (Num a) (Num b) = Num (min a b)"
| "Math_min _ _ = NaN"

fun Math_max :: "number \<Rightarrow> number \<Rightarrow> number" where
  "Math_max (Num a) (Num b) = Num (max a b)"
| "Math_max _ _ = NaN"

fun js_lt :: "number \<Rightarrow> number \<Rightarrow> bool" where
  "js_lt (Num a) (Num b) = (a < b)"
| "js_lt _ _ = False"

fun js_gt :: "number \<Rightarrow> number \<Rightarrow> bool" where
  "js_gt (Num a) (Num b) = (a > b)"
| "js_gt _ _ = False"

text \<open>\<^verbatim>\<open>ToIntegerOrInfinity\<close> of ECMAScript: \<open>NaN\<close> becomes 0.\<close>

fun ToIntegerOrInfinity :: "number \<Rightarrow> int" where
  "ToIntegerOrInfinity NaN = 0"
| "ToIntegerOrInfinity (Num i) = i"

text \<open>
  \<^verbatim>\<open>Array.prototype.slice(start, end)\<close>: a negative index counts from the end of the
  array, every index is clamped into \<open>[0, len]\<close>, and the copy holds the elements from
  \<open>k\<close> up to but excluding \<open>final\<close> (none when \<open>final \<le> k\<close>).
\<close>

definition Array_slice :: "'a list \<Rightarrow> number \<Rightarrow> number \<Rightarrow> 'a list" where
  "Array_slice xs start end' =
     (let len = int (length xs);
          relativeStart = ToIntegerOrInfinity start;
          k = (if relativeStart < 0 then max (len + relativeStart) 0 else min relativeStart len);
          relativeEnd = ToIntegerOrInfinity end';
          final = (if relativeEnd < 0 then max (len + relativeEnd) 0 else min relativeEnd len)
      in take (nat (final - k)) (drop (nat k) xs))"

text \<open>
  A value of type \<^verbatim>\<open>string | undefined\<close> is a \<open>string option\<close>. In a condition
  (\<^verbatim>\<open>cursor ? ... : ...\<close>, \<^verbatim>\<open>!chatCursor\<close>) \<^verbatim>\<open>undefined\<close> and the empty string are
  falsy, every other string is truthy.
\<close>

fun truthy :: "string option \<Rightarrow> bool" where
  "truthy None = False"
| "truthy (Some s) = (s \<noteq> [])"

subsection \<open>Number to string and back\<close>

definition DIGITS :: string where
  "DIGITS = ''0123456789''"

definition digit_char :: "nat \<Rightarrow> char" where
  "digit_char d = DIGITS ! d"

function nat_toString :: "nat \<Rightarrow> string" where
  "nat_toString n =
     (if n < 10 then [digit_char n] else nat_toString (n div 10) @ [digit_char (n mod 10)])"
  by pat_completeness auto
termination
  by (relation "measure id") auto

declare nat_toString.simps [simp del]

text \<open>\<^verbatim>\<open>Number.prototype.toString()\<close> and the \<^verbatim>\<open>${n}\<close> of a template literal, on an
  integer or \<open>NaN\<close>: the decimal digits, with a leading minus sign for a negative number.\<close>

fun toString :: "number \<Rightarrow> string" where
  "toString NaN = ''NaN''"
| "toString (Num i) = (if i < 0 then CHR ''-'' # nat_toString (nat (- i)) else nat_toString (nat i))"

declare toString.simps [simp del]

text \<open>
  Characters are JavaScript code units below 256. \<^verbatim>\<open>parseInt\<close> skips the white space
  and line terminators of ECMAScript in that range: TAB, LF, VT, FF, CR, SPACE and NBSP.
\<close>

definition isWhiteSpace :: "char \<Rightarrow> bool" where
  "isWhiteSpace c = ((of_char c :: nat) \<in> {9, 10, 11, 12, 13, 32, 160})"

definition isDigit :: "char \<Rightarrow> bool" where
  "isDigit c = (48 \<le> (of_char c :: nat) \<and> (of_char c :: nat) \<le> 57)"

definition digit_val :: "char \<Rightarrow> int" where
  "digit_val c = int (of_char c) - 48"

text \<open>
  \<^verbatim>\<open>parseInt(string, 10)\<close>: leading white space is dropped, one sign is read, then the
  longest run of decimal digits; what follows the digits is ignored. Without a digit the
  result is \<open>NaN\<close>.
\<close>

definition parseInt :: "string \<Rightarrow> number" where
  "parseInt inputString =
     (let S = dropWhile isWhiteSpace inputString;
          sign = (if S \<noteq> [] \<and> hd S = CHR ''-'' then - 1 else 1 :: int);
          S' = (if S \<noteq> [] \<and> (hd S = CHR ''+'' \<or> hd S = CHR ''-'') then tl S else S);
          Z = takeWhile isDigit S'
      in if Z = [] then NaN
         else Num (sign * foldl (\<lambda>a c. 10 * a + digit_val c) 0 Z))"

text \<open>
  \<^verbatim>\<open>String.prototype.trim()\<close>: white space is removed from both ends.
\<close>

definition trim :: "string \<Rightarrow> string" where
  "trim s = rev (dropWhile isWhiteSpace (rev (dropWhile isWhiteSpace s)))"

section \<open>The data model of the message service\<close>

record User =
  user_id :: string
  user_name :: string
  user_avatar :: string

record MessagePreview =
  preview_id :: string
  user :: User
  lastMessage :: string
  preview_timestamp :: int
  unreadCount :: nat

record ChatMessage =
  message_id :: string
  conversationId :: string
  senderId :: string
  message_text :: string
  message_timestamp :: int
  isSent :: bool

record 'a PaginatedResponse =
  data :: "'a list"
  hasMore :: bool
  nextCursor :: "string option"

definition NAMES :: "string list" where
  "NAMES = [''Alice Johnson'', ''Bob Smith'', ''Charlie Brown'', ''Diana Prince'',
     ''Eve Williams'', ''Frank Miller'', ''Grace Lee'', ''Henry Davis'', ''Ivy Chen'',
     ''Jack Wilson'', ''Kate Turner'', ''Leo Martinez'']"

definition MESSAGE_SNIPPETS :: "string list" where
  "MESSAGE_SNIPPETS = [''Hey, how are you doing?'', ''Did you see the game last night?'',
     ''Can we meet tomorrow at 3pm?'', ''Thanks for the help earlier!'',
     ''Let me know when you are free'', ''That sounds great, count me in!'',
     ''I just finished the project'', ''Have you tried the new restaurant?'',
     ''Happy birthday! Hope you have a great day'', ''Quick question about the meeting'',
     ''Just wanted to check in'', ''See you at the office!'']"

definition CHAT_MESSAGES :: "string list" where
  "CHAT_MESSAGES = [''Hello!'', ''Hey there!'', ''How are you doing today?'',
     ''I am doing great, thanks for asking!'', ''What are you up to this weekend?'',
     ''Not much, just relaxing. You?'', ''Same here. Maybe catch a movie?'',
     ''Sounds like a plan!'', ''Which movie were you thinking?'',
     ''How about that new action film?'', ''Perfect, I heard it is really good'',
     ''Great, let us plan for Saturday then'', ''Works for me!'', ''See you then!'',
     ''Can not wait!'']"

text \<open>
  What a call reads from outside the program is an input of the model: the clock
  (\<^verbatim>\<open>Date.now()\<close>, \<^verbatim>\<open>new Date()\<close>, in milliseconds), the identifier that
  \<^verbatim>\<open>generateId()\<close> draws, and for the item at index \<open>i\<close> of a generated list the
  index \<^verbatim>\<open>Math.floor(Math.random() * arr.length)\<close> that \<^verbatim>\<open>getRandomItem\<close> draws and the
  value of the unread-count expression. The simulated latency (\<^verbatim>\<open>delay\<close>) only
  decides when the body of an operation runs; each body below runs without interruption,
  as the single-threaded runtime guarantees between two \<^verbatim>\<open>await\<close>s.
\<close>

record env =
  Date_now :: int
  generateId :: string
  randomIndex :: "nat \<Rightarrow> nat"
  randomUnread :: "nat \<Rightarrow> nat"

definition getRandomItem :: "nat \<Rightarrow> 'a list \<Rightarrow> 'a" where
  "getRandomItem index arr = arr ! index"

definition getAvatarUrl :: "nat \<Rightarrow> string" where
  "getAvatarUrl index = ''https://i.pravatar.cc/150?img='' @ toString (Num (int (index mod 70) + 1))"

text \<open>\<^verbatim>\<open>Array.from({ length: count }, f)\<close> has \<open>ToLength count\<close> elements: none for a
  negative \<open>count\<close>.\<close>

definition generateMessagePreviews :: "env \<Rightarrow> int \<Rightarrow> MessagePreview list" where
  "generateMessagePreviews e count =
     (let now = Date_now e;
          cacheId = generateId e
      in map (\<lambda>i.
           \<lparr> preview_id = ''preview-'' @ cacheId @ ''-'' @ toString (Num (int i)),
             user = \<lparr> user_id = ''user-'' @ cacheId @ ''-'' @ toString (Num (int i)),
                      user_name = NAMES ! (i mod length NAMES),
                      user_avatar = getAvatarUrl i \<rparr>,
             lastMessage = getRandomItem (randomIndex e i) MESSAGE_SNIPPETS,
             preview_timestamp = now - int i * 1000 * 60 * 30,
             unreadCount = randomUnread e i \<rparr>) [0 ..< nat count])"

definition generateChatMessages :: "env \<Rightarrow> string \<Rightarrow> int \<Rightarrow> ChatMessage list" where
  "generateChatMessages e convId count =
     (let now = Date_now e;
          cacheId = generateId e
      in map (\<lambda>i.
           \<lparr> message_id = ''msg-'' @ cacheId @ ''-'' @ toString (Num (int i)),
             conversationId = convId,
             senderId = (if i mod 2 = 0 then ''current-user'' else ''other-user''),
             message_text = CHAT_MESSAGES ! (i mod length CHAT_MESSAGES),
             message_timestamp = now - (count - 1 - int i) * 1000 * 60 * 2,
             isSent = (i mod 2 = 0) \<rparr>) [0 ..< nat count])"

section \<open>The cache and the paginated operations\<close>

text \<open>
  The two module-level maps \<^verbatim>\<open>messageCache\<close> and \<^verbatim>\<open>chatCache\<close>. An array held in
  a map is only ever read through \<^verbatim>\<open>slice\<close>, which copies, and written by \<^verbatim>\<open>push\<close>; no
  page shares storage with the cache, so an entry is a list and \<^verbatim>\<open>push\<close> is an update of
  the map. In both fetch operations the lookup \<^verbatim>\<open>get(cacheKey)!\<close> follows the test that
  stores a missing entry: it always finds one, and the \<open>None\<close> branch written out below is
  never taken.
\<close>

record caches =
  messageCache :: "string \<rightharpoonup> MessagePreview list"
  chatCache :: "string \<rightharpoonup> ChatMessage list"

definition emptyCaches :: caches where
  "emptyCaches = \<lparr> messageCache = Map.empty, chatCache = Map.empty \<rparr>"

definition previewsKey :: "int \<Rightarrow> string" where
  "previewsKey count = ''previews-'' @ toString (Num count)"

definition chatKey :: "string \<Rightarrow> string" where
  "chatKey convId = ''chat-'' @ convId"

text \<open>The page of \<^verbatim>\<open>fetchMessagePreviews\<close>, once \<^verbatim>\<open>allMessages\<close> is read from the cache
  (the statements from \<^verbatim>\<open>const startIndex\<close> to the \<^verbatim>\<open>return\<close>).\<close>

definition previewsPage :: "'a list \<Rightarrow> int \<Rightarrow> string option \<Rightarrow> 'a PaginatedResponse" where
  "previewsPage allMessages count cursor =
     (let startIndex = (if truthy cursor then parseInt (the cursor) else Num 0);
          pageSize = Math_min (Num count) (Num 20);
          endIndex = Math_min (js_add startIndex pageSize) (Num (int (length allMessages)))
      in \<lparr> data = Array_slice allMessages startIndex endIndex,
           hasMore = js_lt endIndex (Num (int (length allMessages))),
           nextCursor = (if js_lt endIndex (Num (int (length allMessages)))
                         then Some (toString endIndex) else None) \<rparr>)"

definition fetchMessagePreviews ::
  "env \<Rightarrow> int \<Rightarrow> string option \<Rightarrow> caches \<Rightarrow> MessagePreview PaginatedResponse \<times> caches" where
  "fetchMessagePreviews e count cursor st =
     (let cacheKey = previewsKey count;
          st' = (if messageCache st cacheKey = None
                 then st\<lparr> messageCache :=
                        (messageCache st)(cacheKey \<mapsto> generateMessagePreviews e (count * 3)) \<rparr>
                 else st)
      in case messageCache st' cacheKey of
           Some allMessages \<Rightarrow> (previewsPage allMessages count cursor, st')
         | None \<Rightarrow> (\<lparr> data = [], hasMore = False, nextCursor = None \<rparr>, st'))"

text \<open>The page of \<^verbatim>\<open>fetchChatMessages\<close>, once \<^verbatim>\<open>allMessages\<close> is read from the cache
  (the statements from \<^verbatim>\<open>const endIndex\<close> to the \<^verbatim>\<open>return\<close>).\<close>

definition chatPage :: "'a list \<Rightarrow> int \<Rightarrow> string option \<Rightarrow> 'a PaginatedResponse" where
  "chatPage allMessages count cursor =
     (let endIndex = (if truthy cursor then parseInt (the cursor)
                      else Num (int (length allMessages)));
          pageSize = Math_min (Num count) (Num 20);
          startIndex = Math_max (js_sub endIndex pageSize) (Num 0)
      in \<lparr> data = Array_slice allMessages startIndex endIndex,
           hasMore = js_gt startIndex (Num 0),
           nextCursor = (if js_gt startIndex (Num 0) then Some (toString startIndex) else None) \<rparr>)"

definition fetchChatMessages ::
  "env \<Rightarrow> string \<Rightarrow> int \<Rightarrow> string option \<Rightarrow> caches \<Rightarrow> ChatMessage PaginatedResponse \<times> caches" where
  "fetchChatMessages e convId count cursor st =
     (let cacheKey = chatKey convId;
          st' = (if chatCache st cacheKey = None
                 then st\<lparr> chatCache :=
                        (chatCache st)(cacheKey \<mapsto> generateChatMessages e convId (count * 3)) \<rparr>
                 else st)
      in case chatCache st' cacheKey of
           Some allMessages \<Rightarrow> (chatPage allMessages count cursor, st')
         | None \<Rightarrow> (\<lparr> data = [], hasMore = False, nextCursor = None \<rparr>, st'))"

text \<open>\<^verbatim>\<open>sendMessage\<close>: the new message is pushed onto the conversation's cached array
  when there is one.\<close>

definition sendMessage :: "env \<Rightarrow> string \<Rightarrow> string \<Rightarrow> caches \<Rightarrow> ChatMessage \<times> caches" where
  "sendMessage e convId txt st =
     (let newMessage = \<lparr> message_id = generateId e,
                          conversationId = convId,
                          senderId = ''current-user'',
                          message_text = txt,
                          message_timestamp = Date_now e,
                          isSent = True \<rparr>;
          cacheKey = chatKey convId
      in case chatCache st cacheKey of
           Some allMessages \<Rightarrow>
             (newMessage, st\<lparr> chatCache := (chatCache st)(cacheKey \<mapsto> allMessages @ [newMessage]) \<rparr>)
         | None \<Rightarrow> (newMessage, st))"

definition clearCache :: "caches \<Rightarrow> caches" where
  "clearCache st = st\<lparr> messageCache := Map.empty, chatCache := Map.empty \<rparr>"

section \<open>Clients of the service\<close>

text \<open>
  A client that pages through the conversation list as \<^verbatim>\<open>MessagesExampleSheet\<close> does:
  the first call has no cursor, every later call passes the \<^verbatim>\<open>nextCursor\<close> it was
  given, each page is appended (\<^verbatim>\<open>[...prev, ...response.data]\<close>), and the client stops
  at the first page with \<^verbatim>\<open>hasMore\<close> false. The number of calls is bounded by
  \<open>fuel\<close>; \<open>None\<close> means that the cursor chain did not end within that many calls.
  The \<open>n\<close>-th call runs in the environment \<open>es n\<close>.
\<close>

fun forwardChain ::
  "nat \<Rightarrow> (nat \<Rightarrow> env) \<Rightarrow> nat \<Rightarrow> int \<Rightarrow> string option \<Rightarrow> caches
     \<Rightarrow> (MessagePreview list \<times> caches) option" where
  "forwardChain 0 es n count cursor st = None"
| "forwardChain (Suc fuel) es n count cursor st =
     (case fetchMessagePreviews (es n) count cursor st of
        (response, st') \<Rightarrow>
          if hasMore response
          then (case forwardChain fuel es (Suc n) count (nextCursor response) st' of
                  None \<Rightarrow> None
                | Some (rest, st'') \<Rightarrow> Some (data response @ rest, st''))
          else Some (data response, st'))"

text \<open>
  A client that pages through a conversation as the chronological \<^verbatim>\<open>ConversationSheet\<close>
  does: each older page is put in front of what is already loaded
  (\<^verbatim>\<open>[...response.data, ...prev]\<close>).
\<close>

fun backwardChain ::
  "nat \<Rightarrow> (nat \<Rightarrow> env) \<Rightarrow> nat \<Rightarrow> string \<Rightarrow> int \<Rightarrow> string option \<Rightarrow> caches
     \<Rightarrow> (ChatMessage list \<times> caches) option" where
  "backwardChain 0 es n convId count cursor st = None"
| "backwardChain (Suc fuel) es n convId count cursor st =
     (case fetchChatMessages (es n) convId count cursor st of
        (response, st') \<Rightarrow>
          if hasMore response
          then (case backwardChain fuel es (Suc n) convId count (nextCursor response) st' of
                  None \<Rightarrow> None
                | Some (older, st'') \<Rightarrow> Some (older @ data response, st''))
          else Some (data response, st'))"

text \<open>Any sequence of calls of the four exported operations, and its effect on the cache.\<close>

datatype call =
    FetchMessagePreviews env int "string option"
  | FetchChatMessages env string int "string option"
  | SendMessage env string string
  | ClearCache

fun perform :: "call \<Rightarrow> caches \<Rightarrow> caches" where
  "perform (FetchMessagePreviews e count cursor) st = snd (fetchMessagePreviews e count cursor st)"
| "perform (FetchChatMessages e convId count cursor) st = snd (fetchChatMessages e convId count cursor st)"
| "perform (SendMessage e convId txt) st = snd (sendMessage e convId txt st)"
| "perform ClearCache st = clearCache st"

definition performAll :: "call list \<Rightarrow> caches \<Rightarrow> caches" where
  "performAll calls st = fold perform calls st"

text \<open>The messages that the \<^verbatim>\<open>sendMessage\<close> calls of a sequence of calls build for one
  conversation, in the order of the calls. (The message a call builds does not depend on
  the cache.)\<close>

fun sentTo :: "string \<Rightarrow> call list \<Rightarrow> ChatMessage list" where
  "sentTo convId [] = []"
| "sentTo convId (SendMessage e convId' txt # calls) =
     (if convId' = convId then [fst (sendMessage e convId' txt emptyCaches)] else [])
       @ sentTo convId calls"
| "sentTo convId (_ # calls) = sentTo convId calls"

section \<open>The conversation sheet\<close>

text \<open>
  The state of the \<^verbatim>\<open>ConversationSheet\<close> component: the ref \<^verbatim>\<open>chatLoadingMoreRef\<close> and
  its \<^verbatim>\<open>useState\<close> cells. The repository holds two versions of the component, which
  differ in the order of \<^verbatim>\<open>chatMessages\<close>: newest first, for an inverted list, and
  oldest first.
\<close>

record controller =
  chatLoadingMoreRef :: bool
  selectedConversation :: "MessagePreview option"
  chatMessages :: "ChatMessage list"
  chatLoading :: bool
  chatLoadingMore :: bool
  chatHasMore :: bool
  chatCursor :: "string option"
  inputText :: string

datatype variant = Inverted | Chronological

text \<open>How the promise a handler awaits settles.\<close>

datatype 'a outcome = Rejected | Resolved 'a

text \<open>
  A handler reads each state cell as it was last written: the re-rendering that hands a new
  closure to the next invocation is not modelled.

  An \<^verbatim>\<open>async\<close> handler runs in two uninterrupted parts: from its invocation to the
  \<^verbatim>\<open>await\<close>, where it has issued its request or has returned early (\<open>None\<close>), and from
  the settlement of the awaited promise to its end. Other handlers may run in between.

  \<^verbatim>\<open>loadMoreChatMessages\<close> up to \<^verbatim>\<open>await fetchChatMessages(selectedConversation.id, 20, chatCursor)\<close>;
  the request is the argument list of that call.
\<close>

definition loadMoreChatMessages_invoke ::
  "controller \<Rightarrow> (string \<times> int \<times> string option) option \<times> controller" where
  "loadMoreChatMessages_invoke c =
     (if chatLoadingMoreRef c \<or> \<not> chatHasMore c \<or> \<not> truthy (chatCursor c)
         \<or> selectedConversation c = None
      then (None, c)
      else (Some (preview_id (the (selectedConversation c)), 20, chatCursor c),
            c\<lparr> chatLoadingMoreRef := True, chatLoadingMore := True \<rparr>))"

text \<open>\<^verbatim>\<open>loadMoreChatMessages\<close> from the settlement on: the rest of the \<^verbatim>\<open>try\<close> block when
  the fetch resolved, then the \<^verbatim>\<open>finally\<close> block in either case.\<close>

definition loadMoreChatMessages_settle ::
  "variant \<Rightarrow> ChatMessage PaginatedResponse outcome \<Rightarrow> controller \<Rightarrow> controller" where
  "loadMoreChatMessages_settle v result c =
     (let c' = (case result of
                  Resolved response \<Rightarrow>
                    c\<lparr> chatMessages :=
                         (case v of
                            Inverted \<Rightarrow> chatMessages c @ rev (data response)
                          | Chronological \<Rightarrow> data response @ chatMessages c),
                       chatHasMore := hasMore response,
                       chatCursor := nextCursor response \<rparr>
                | Rejected \<Rightarrow> c)
      in c'\<lparr> chatLoadingMore := False, chatLoadingMoreRef := False \<rparr>)"

text \<open>\<open>n\<close> invocations of \<^verbatim>\<open>loadMoreChatMessages\<close> before any fetch settles, with the
  requests they issue.\<close>

fun loadMoreChatMessages_times ::
  "nat \<Rightarrow> controller \<Rightarrow> (string \<times> int \<times> string option) list \<times> controller" where
  "loadMoreChatMessages_times 0 c = ([], c)"
| "loadMoreChatMessages_times (Suc n) c =
     (case loadMoreChatMessages_invoke c of
        (request, c') \<Rightarrow>
          (case loadMoreChatMessages_times n c' of
             (requests, c'') \<Rightarrow>
               ((case request of None \<Rightarrow> [] | Some r \<Rightarrow> [r]) @ requests, c'')))"

text \<open>\<^verbatim>\<open>handleSendMessage\<close> up to \<^verbatim>\<open>await sendMessage(selectedConversation.id, text)\<close>; the
  request is the argument list of that call.\<close>

definition handleSendMessage_invoke :: "controller \<Rightarrow> (string \<times> string) option \<times> controller" where
  "handleSendMessage_invoke c =
     (if trim (inputText c) = [] \<or> selectedConversation c = None
      then (None, c)
      else (let txt = trim (inputText c)
            in (Some (preview_id (the (selectedConversation c)), txt), c\<lparr> inputText := [] \<rparr>)))"

text \<open>\<^verbatim>\<open>handleSendMessage\<close> from the settlement on, with the \<^verbatim>\<open>text\<close> it sent: the rest of
  the \<^verbatim>\<open>try\<close> block, or the \<^verbatim>\<open>catch\<close> block.\<close>

definition handleSendMessage_settle ::
  "variant \<Rightarrow> string \<Rightarrow> ChatMessage outcome \<Rightarrow> controller \<Rightarrow> controller" where
  "handleSendMessage_settle v txt result c =
     (case result of
        Resolved newMessage \<Rightarrow>
          c\<lparr> chatMessages :=
               (case v of
                  Inverted \<Rightarrow> newMessage # chatMessages c
                | Chronological \<Rightarrow> chatMessages c @ [newMessage]) \<rparr>
      | Rejected \<Rightarrow> c\<lparr> inputText := txt \<rparr>)"

text \<open>The whole handler, when nothing else runs while the send is in flight.\<close>

definition handleSendMessage :: "variant \<Rightarrow> ChatMessage outcome \<Rightarrow> controller \<Rightarrow> controller" where
  "handleSendMessage v result c =
     (case handleSendMessage_invoke c of
        (None, c') \<Rightarrow> c'
      | (Some (convId, txt), c') \<Rightarrow> handleSendMessage_settle v txt result c')"

section \<open>Notions of the specification\<close>

text \<open>
  The slice \<open>[a, b)\<close> of a sequence, as the specification writes it: the elements at the
  positions \<open>i\<close> with \<open>a \<le> i < b\<close>, in their order.
\<close>

definition between :: "'a list \<Rightarrow> int \<Rightarrow> int \<Rightarrow> 'a list" where
  "between xs a b = map (\<lambda>i. xs ! i) (filter (\<lambda>i. a \<le> int i \<and> int i < b) [0 ..< length xs])"

text \<open>
  The cursor parsed as an integer, with the value \<open>d\<close> when it is absent.
\<close>

definition parsedCursor :: "string option \<Rightarrow> int \<Rightarrow> number" where
  "parsedCursor cursor d = (case cursor of None \<Rightarrow> Num d | Some c \<Rightarrow> parseInt c)"

section \<open>Example inputs\<close>

definition exampleEnv :: env where
  "exampleEnv = \<lparr> Date_now = 1700000000000, generateId = ''k3x9q2m1z'',
                  randomIndex = (\<lambda>i. i mod 12), randomUnread = (\<lambda>i. 0) \<rparr>"

definition examplePreview :: MessagePreview where
  "examplePreview = hd (generateMessagePreviews exampleEnv 1)"

definition exampleController :: controller where
  "exampleController = \<lparr> chatLoadingMoreRef = False, selectedConversation = Some examplePreview,
       chatMessages = generateChatMessages exampleEnv ''c1'' 2, chatLoading = False,
       chatLoadingMore = False, chatHasMore = True, chatCursor = Some ''40'',
       inputText = '' hi '' \<rparr>"

text \<open>The cache after the first page of the conversation list (2 per page) and the
  first page of conversation \<open>c1\<close> (2 per page) have been fetched.\<close>

definition exampleCaches :: caches where
  "exampleCaches =
     snd (fetchChatMessages exampleEnv ''c1'' 2 None
       (snd (fetchMessagePreviews exampleEnv 2 None emptyCaches)))"

definition exampleCalls :: "call list" where
  "exampleCalls =
     [FetchMessagePreviews exampleEnv 2 (Some ''2''),
      SendMessage exampleEnv ''c1'' ''hi'',
      FetchChatMessages exampleEnv ''c1'' 5 None,
      SendMessage exampleEnv ''c2'' ''ho'',
      FetchMessagePreviews exampleEnv 3 None]"

section \<open>Numbers and strings\<close>

lemma lt10: "(d::nat) < 10 \<Longrightarrow> d \<in> {0,1,2,3,4,5,6,7,8,9}"
  by auto

lemma digit_val_digit_char: "d < 10 \<Longrightarrow> digit_val (digit_char d) = int d"
  by (drule lt10) (auto simp: digit_val_def digit_char_def DIGITS_def)

lemma isDigit_digit_char: "d < 10 \<Longrightarrow> isDigit (digit_char d)"
  by (drule lt10) (auto simp: isDigit_def digit_char_def DIGITS_def)

lemma isDigit_not_space: "isDigit c \<Longrightarrow> \<not> isWhiteSpace c"
  by (auto simp: isDigit_def isWhiteSpace_def)

lemma isDigit_not_sign: "isDigit c \<Longrightarrow> c \<noteq> CHR ''-'' \<and> c \<noteq> CHR ''+''"
  by (auto simp: isDigit_def)

lemma nat_toString_nonempty: "nat_toString n \<noteq> []"
  by (subst nat_toString.simps) simp

lemma nat_toString_digits: "\<forall>c \<in> set (nat_toString n). isDigit c"
proof (induction n rule: nat_toString.induct)
  case (1 n)
  show ?case
  proof (cases "n < 10")
    case True
    then show ?thesis
      by (subst nat_toString.simps) (simp add: isDigit_digit_char)
  next
    case False
    with 1 show ?thesis
      by (subst nat_toString.simps) (simp add: isDigit_digit_char)
  qed
qed

lemma nat_toString_value:
  "foldl (\<lambda>a c. 10 * a + digit_val c) 0 (nat_toString n) = int n"
proof (induction n rule: nat_toString.induct)
  case (1 n)
  show ?case
  proof (cases "n < 10")
    case True
    then show ?thesis
      by (subst nat_toString.simps) (simp add: digit_val_digit_char)
  next
    case False
    with 1 have "foldl (\<lambda>a c. 10 * a + digit_val c) 0 (nat_toString (n div 10)) = int (n div 10)"
      by simp
    with False show ?thesis
      by (subst nat_toString.simps) (simp add: digit_val_digit_char zdiv_int zmod_int)
  qed
qed

lemma parseInt_digits:
  assumes "s \<noteq> []" "\<forall>c \<in> set s. isDigit c"
  shows "parseInt s = Num (foldl (\<lambda>a c. 10 * a + digit_val c) 0 s)"
proof -
  from assms obtain c cs where s: "s = c # cs" by (cases s) auto
  with assms have c: "isDigit c" by simp
  have tw: "takeWhile isDigit s = s" using assms by (simp add: takeWhile_eq_all_conv)
  have dw: "dropWhile isWhiteSpace s = s" using c s by (simp add: isDigit_not_space)
  show ?thesis
    using isDigit_not_sign[OF c] assms(1) tw dw s by (simp add: parseInt_def Let_def)
qed

lemma parseInt_minus_digits:
  assumes "s \<noteq> []" "\<forall>c \<in> set s. isDigit c"
  shows "parseInt (CHR ''-'' # s) = Num (- foldl (\<lambda>a c. 10 * a + digit_val c) 0 s)"
proof -
  have tw: "takeWhile isDigit s = s" using assms by (simp add: takeWhile_eq_all_conv)
  have dw: "\<not> isWhiteSpace (CHR ''-'')" by (simp add: isWhiteSpace_def)
  show ?thesis
    using assms(1) by (simp add: parseInt_def Let_def tw dw)
qed

text \<open>A cursor that the service printed reads back as the index it was printed from.\<close>

lemma parseInt_toString: "parseInt (toString (Num i)) = Num i"
proof (cases "i < 0")
  case True
  then show ?thesis
    by (simp add: toString.simps parseInt_minus_digits nat_toString_nonempty nat_toString_digits
        nat_toString_value)
next
  case False
  then show ?thesis
    by (simp add: toString.simps parseInt_digits nat_toString_nonempty nat_toString_digits
        nat_toString_value)
qed

lemma toString_nonempty: "toString n \<noteq> []"
  by (cases n) (auto simp: toString.simps nat_toString_nonempty)

lemma Array_slice_nonneg:
  "0 \<le> a \<Longrightarrow> 0 \<le> b \<Longrightarrow> Array_slice xs (Num a) (Num b) = drop (nat a) (take (nat b) xs)"
  by (auto simp: Array_slice_def Let_def drop_take min_def nat_diff_distrib')

lemma length_generateMessagePreviews:
  "length (generateMessagePreviews e count) = nat count"
  by (simp add: generateMessagePreviews_def Let_def)

lemma length_generateChatMessages:
  "length (generateChatMessages e convId count) = nat count"
  by (simp add: generateChatMessages_def Let_def)

lemma filter_between_upt:
  "filter (\<lambda>i. a \<le> int i \<and> int i < b) [0 ..< n] = [nat a ..< min (nat b) n]"
proof (induction n)
  case 0
  then show ?case by simp
next
  case (Suc n)
  show ?case
  proof (cases "a \<le> int n \<and> int n < b")
    case True
    then have "nat a \<le> n" "min (nat b) n = n" "min (nat b) (Suc n) = Suc n" by auto
    with Suc True show ?thesis by simp
  next
    case False
    then have "n < nat a \<or> nat b \<le> n" by auto
    then show ?thesis
    proof
      assume "n < nat a"
      then show ?thesis using Suc False by auto
    next
      assume "nat b \<le> n"
      then have "min (nat b) n = nat b" "min (nat b) (Suc n) = nat b" by auto
      with Suc False show ?thesis by simp
    qed
  qed
qed

lemma between_drop_take: "between xs a b = drop (nat a) (take (nat b) xs)"
proof -
  let ?m = "min (nat b) (length xs)"
  have "[nat a ..< ?m] = drop (nat a) (take ?m [0 ..< length xs])"
    by simp
  then have "map (\<lambda>i. xs ! i) [nat a ..< ?m] = drop (nat a) (take ?m (map (\<lambda>i. xs ! i) [0 ..< length xs]))"
    by (simp only: drop_map take_map)
  then have "between xs a b = drop (nat a) (take ?m xs)"
    by (simp only: between_def filter_between_upt map_nth)
  then show ?thesis by (simp add: min_def)
qed

lemma generateChatMessages_nth:
  assumes "i < nat count"
  shows "generateChatMessages e convId count ! i =
           \<lparr> message_id = ''msg-'' @ generateId e @ ''-'' @ toString (Num (int i)),
             conversationId = convId,
             senderId = (if i mod 2 = 0 then ''current-user'' else ''other-user''),
             message_text = CHAT_MESSAGES ! (i mod length CHAT_MESSAGES),
             message_timestamp = Date_now e - (count - 1 - int i) * 1000 * 60 * 2,
             isSent = (i mod 2 = 0) \<rparr>"
  using assms by (simp add: generateChatMessages_def Let_def)

text \<open>
  C9. For every conversation and every count \<open>\<ge> 0\<close>, \<open>generateChatMessages\<close> yields
  exactly \<open>count\<close> messages; from each message to the next the timestamp grows by two
  minutes (120000 ms), so the timestamps are sorted in generation order; every message
  carries the conversation's id; the message at an even index is outgoing (\<open>isSent\<close>,
  sender \<open>current-user\<close>) and the message at an odd index is incoming (not \<open>isSent\<close>,
  sender \<open>other-user\<close>).
\<close>

theorem C9_generateChatMessages:
  assumes "0 \<le> count"
  shows "int (length (generateChatMessages e convId count)) = count
    \<and> (\<forall>i. int i + 1 < count \<longrightarrow>
           message_timestamp (generateChatMessages e convId count ! Suc i)
             - message_timestamp (generateChatMessages e convId count ! i) = 2 * 60 * 1000)
    \<and> sorted (map message_timestamp (generateChatMessages e convId count))
    \<and> (\<forall>i. int i < count \<longrightarrow>
           conversationId (generateChatMessages e convId count ! i) = convId
           \<and> isSent (generateChatMessages e convId count ! i) = even i
           \<and> senderId (generateChatMessages e convId count ! i)
               = (if even i then ''current-user'' else ''other-user''))"
proof -
  let ?ms = "generateChatMessages e convId count"
  have len: "int (length ?ms) = count"
    using assms by (simp add: length_generateChatMessages)
  have step: "\<forall>i. int i + 1 < count \<longrightarrow>
           message_timestamp (?ms ! Suc i) - message_timestamp (?ms ! i) = 2 * 60 * 1000"
  proof (intro allI impI)
    fix i assume "int i + 1 < count"
    then have "i < nat count" "Suc i < nat count" by auto
    then show "message_timestamp (?ms ! Suc i) - message_timestamp (?ms ! i) = 2 * 60 * 1000"
      by (simp add: generateChatMessages_nth)
  qed
  have mono: "sorted (map message_timestamp ?ms)"
  proof (rule sorted_wrt_iff_nth_less[THEN iffD2], intro allI impI)
    fix i j assume "i < j" "j < length (map message_timestamp ?ms)"
    then have "i < nat count" "j < nat count" by (auto simp: length_generateChatMessages)
    then show "map message_timestamp ?ms ! i \<le> map message_timestamp ?ms ! j"
      using \<open>i < j\<close> by (simp add: generateChatMessages_nth length_generateChatMessages)
  qed
  have parity: "\<forall>i. int i < count \<longrightarrow>
           conversationId (?ms ! i) = convId
           \<and> isSent (?ms ! i) = even i
           \<and> senderId (?ms ! i) = (if even i then ''current-user'' else ''other-user'')"
  proof (intro allI impI)
    fix i assume "int i < count"
    then have "i < nat count" by auto
    then show "conversationId (?ms ! i) = convId
           \<and> isSent (?ms ! i) = even i
           \<and> senderId (?ms ! i) = (if even i then ''current-user'' else ''other-user'')"
      by (simp add: generateChatMessages_nth even_iff_mod_2_eq_zero)
  qed
  from len step mono parity show ?thesis by blast
qed

theorem C9_generateChatMessages_witness:
  "(0::int) \<le> 3
   \<and> int (length (generateChatMessages exampleEnv ''c1'' 3)) = 3
   \<and> message_timestamp (generateChatMessages exampleEnv ''c1'' 3 ! Suc 0)
       - message_timestamp (generateChatMessages exampleEnv ''c1'' 3 ! 0) = 2 * 60 * 1000
   \<and> isSent (generateChatMessages exampleEnv ''c1'' 3 ! 0)
   \<and> senderId (generateChatMessages exampleEnv ''c1'' 3 ! 0) = ''current-user''
   \<and> \<not> isSent (generateChatMessages exampleEnv ''c1'' 3 ! 1)
   \<and> senderId (generateChatMessages exampleEnv ''c1'' 3 ! 1) = ''other-user''"
proof -
  have h: "(0::int) \<le> 3" by simp
  note t = C9_generateChatMessages[OF h, of exampleEnv "''c1''"]
  from t have len: "int (length (generateChatMessages exampleEnv ''c1'' 3)) = 3"
    by blast
  from t have "int 0 + 1 < (3::int) \<longrightarrow>
       message_timestamp (generateChatMessages exampleEnv ''c1'' 3 ! Suc 0)
       - message_timestamp (generateChatMessages exampleEnv ''c1'' 3 ! 0) = 2 * 60 * 1000"
    by blast
  then have step: "message_timestamp (generateChatMessages exampleEnv ''c1'' 3 ! Suc 0)
       - message_timestamp (generateChatMessages exampleEnv ''c1'' 3 ! 0) = 2 * 60 * 1000"
    by simp
  from t have p: "\<forall>i. int i < (3::int) \<longrightarrow>
           isSent (generateChatMessages exampleEnv ''c1'' 3 ! i) = even i
           \<and> senderId (generateChatMessages exampleEnv ''c1'' 3 ! i)
               = (if even i then ''current-user'' else ''other-user'')"
    by blast
  from p[rule_format, of 0] p[rule_format, of 1] h len step show ?thesis
    by simp
qed

lemma length_between: "length (between xs a b) = min (nat b) (length xs) - nat a"
  by (simp add: between_drop_take min.commute)

lemma parseInt_Nil: "parseInt [] = NaN"
  by (simp add: parseInt_def)

lemma startIndex_parsed:
  assumes "parsedCursor cursor d = Num s"
  shows "(if truthy cursor then parseInt (the cursor) else Num d) = Num s"
proof (cases cursor)
  case None
  with assms show ?thesis by (simp add: parsedCursor_def)
next
  case (Some c)
  with assms have "parseInt c = Num s" by (simp add: parsedCursor_def)
  moreover from this have "c \<noteq> []" by (auto simp: parseInt_Nil)
  ultimately show ?thesis using Some by simp
qed

lemma fetchMessagePreviews_hit:
  "messageCache st (previewsKey count) = Some xs \<Longrightarrow>
     fetchMessagePreviews e count cursor st = (previewsPage xs count cursor, st)"
  by (simp add: fetchMessagePreviews_def Let_def)

lemma fetchMessagePreviews_miss:
  "messageCache st (previewsKey count) = None \<Longrightarrow>
     fetchMessagePreviews e count cursor st =
       (previewsPage (generateMessagePreviews e (count * 3)) count cursor,
        st\<lparr> messageCache :=
             (messageCache st)(previewsKey count \<mapsto> generateMessagePreviews e (count * 3)) \<rparr>)"
  by (simp add: fetchMessagePreviews_def Let_def)

lemma fetchChatMessages_hit:
  "chatCache st (chatKey convId) = Some xs \<Longrightarrow>
     fetchChatMessages e convId count cursor st = (chatPage xs count cursor, st)"
  by (simp add: fetchChatMessages_def Let_def)

lemma fetchChatMessages_miss:
  "chatCache st (chatKey convId) = None \<Longrightarrow>
     fetchChatMessages e convId count cursor st =
       (chatPage (generateChatMessages e convId (count * 3)) count cursor,
        st\<lparr> chatCache :=
             (chatCache st)(chatKey convId \<mapsto> generateChatMessages e convId (count * 3)) \<rparr>)"
  by (simp add: fetchChatMessages_def Let_def)

lemma previewsPage_nonneg:
  assumes "parsedCursor cursor 0 = Num s" "0 \<le> s" "0 \<le> s + min count 20"
  shows "previewsPage xs count cursor =
           \<lparr> data = between xs s (min (s + min count 20) (int (length xs))),
             hasMore = (min (s + min count 20) (int (length xs)) < int (length xs)),
             nextCursor = (if min (s + min count 20) (int (length xs)) < int (length xs)
                           then Some (toString (Num (min (s + min count 20) (int (length xs)))))
                           else None) \<rparr>"
proof -
  have e: "0 \<le> min (s + min count 20) (int (length xs))"
    using assms(3) by simp
  show ?thesis
    unfolding previewsPage_def Let_def startIndex_parsed[OF assms(1)]
    by (simp add: Array_slice_nonneg[OF assms(2) e] between_drop_take)
qed

lemma chatPage_nonneg:
  assumes "parsedCursor cursor (int (length xs)) = Num e" "0 \<le> e"
  shows "chatPage xs count cursor =
           \<lparr> data = between xs (max (e - min count 20) 0) e,
             hasMore = (max (e - min count 20) 0 > 0),
             nextCursor = (if max (e - min count 20) 0 > 0
                           then Some (toString (Num (max (e - min count 20) 0)))
                           else None) \<rparr>"
proof -
  have s: "0 \<le> max (e - min count 20) 0" by simp
  show ?thesis
    unfolding chatPage_def Let_def startIndex_parsed[OF assms(1)]
    by (auto simp add: Array_slice_nonneg[OF s assms(2)] between_drop_take)
qed

lemma nat_toString_small: "n < 10 \<Longrightarrow> nat_toString n = [digit_char n]"
  by (subst nat_toString.simps) simp

lemma toString_20: "toString (Num 20) = ''20''"
  by (simp add: toString.simps nat_toString.simps digit_char_def DIGITS_def)

lemma toString_40: "toString (Num 40) = ''40''"
  by (simp add: toString.simps nat_toString.simps digit_char_def DIGITS_def)

lemma parsedCursor_None: "parsedCursor None d = Num d"
  by (simp add: parsedCursor_def)

lemma parsedCursor_toString: "parsedCursor (Some (toString (Num i))) d = Num i"
  by (simp add: parsedCursor_def parseInt_toString)

lemma scenario_20:
  "(case fetchMessagePreviews e1 20 None emptyCaches of (r1, s1) \<Rightarrow>
     case fetchMessagePreviews e2 20 (nextCursor r1) s1 of (r2, s2) \<Rightarrow>
       case fetchMessagePreviews e3 20 (nextCursor r2) s2 of (r3, s3) \<Rightarrow>
         length (data r1) = 20 \<and> hasMore r1 \<and> nextCursor r1 = Some ''20''
         \<and> length (data r2) = 20 \<and> hasMore r2 \<and> nextCursor r2 = Some ''40''
         \<and> length (data r3) = 20 \<and> \<not> hasMore r3 \<and> nextCursor r3 = None)"
proof -
  let ?g = "generateMessagePreviews e1 60"
  let ?s1 = "emptyCaches\<lparr> messageCache := (messageCache emptyCaches)(previewsKey 20 \<mapsto> ?g) \<rparr>"
  have len: "length ?g = 60" by (simp add: length_generateMessagePreviews)
  have f1: "fetchMessagePreviews e1 20 None emptyCaches = (previewsPage ?g 20 None, ?s1)"
    using fetchMessagePreviews_miss[of emptyCaches 20 e1 None] by (simp add: emptyCaches_def)
  have hit: "messageCache ?s1 (previewsKey 20) = Some ?g" by simp
  have p1: "previewsPage ?g 20 None =
      \<lparr> data = between ?g 0 20, hasMore = True, nextCursor = Some ''20'' \<rparr>"
    using previewsPage_nonneg[of None 0 20 ?g, OF parsedCursor_None]
    by (simp add: len toString_20)
  have p2: "previewsPage ?g 20 (Some ''20'') =
      \<lparr> data = between ?g 20 40, hasMore = True, nextCursor = Some ''40'' \<rparr>"
    using previewsPage_nonneg[of "Some (toString (Num 20))" 20 20 ?g, OF parsedCursor_toString]
    by (simp add: len toString_20 toString_40)
  have p3: "previewsPage ?g 20 (Some ''40'') =
      \<lparr> data = between ?g 40 60, hasMore = False, nextCursor = None \<rparr>"
    using previewsPage_nonneg[of "Some (toString (Num 40))" 40 20 ?g, OF parsedCursor_toString]
    by (simp add: len toString_40)
  show ?thesis
    by (simp add: f1 fetchMessagePreviews_hit[OF hit] p1 p2 p3 length_between len)
qed

lemma exampleCaches_eq:
  "exampleCaches =
     \<lparr> messageCache = [previewsKey 2 \<mapsto> generateMessagePreviews exampleEnv 6],
       chatCache = [chatKey ''c1'' \<mapsto> generateChatMessages exampleEnv ''c1'' 6] \<rparr>"
  by (simp add: exampleCaches_def fetchMessagePreviews_def fetchChatMessages_def Let_def
      emptyCaches_def)

lemma example_messageCache:
  "messageCache exampleCaches (previewsKey 2) = Some (generateMessagePreviews exampleEnv 6)"
  by (simp add: exampleCaches_eq)

lemma example_chatCache:
  "chatCache exampleCaches (chatKey ''c1'') = Some (generateChatMessages exampleEnv ''c1'' 6)"
  by (simp add: exampleCaches_eq)

lemma toString_digit: "0 \<le> i \<Longrightarrow> i < 10 \<Longrightarrow> toString (Num i) = [digit_char (nat i)]"
  by (simp add: toString.simps nat_toString_small)

lemma parseInt_examples:
  "parseInt ''2'' = Num 2" "parseInt ''4'' = Num 4" "parseInt ''-1'' = Num (- 1)"
  "parseInt '''' = NaN" "parseInt ''abc'' = NaN"
  by (simp_all add: parseInt_def isWhiteSpace_def isDigit_def digit_val_def)

lemma toString_examples:
  "toString (Num 2) = ''2''" "toString (Num 4) = ''4''"
  by (simp_all add: toString_digit digit_char_def DIGITS_def)

text \<open>
  C1 (as stated) fails for a cursor that parses to a negative integer.
  With the six cached previews of \<open>previews-2\<close> and the cursor \<open>-1\<close>, the claim's slice
  \<open>[-1, min(-1 + 2, 6)) = [-1, 1)\<close> holds the first preview, but the operation returns
  no item: \<open>Array.prototype.slice\<close> counts a negative start from the end of the array.
\<close>

theorem C1_negative_cursor_counterexample:
  "messageCache exampleCaches (previewsKey 2) = Some (generateMessagePreviews exampleEnv 6)
   \<and> parsedCursor (Some ''-1'') 0 = Num (- 1)
   \<and> data (fst (fetchMessagePreviews exampleEnv 2 (Some ''-1'') exampleCaches)) = []
   \<and> length (between (generateMessagePreviews exampleEnv 6) (- 1)
               (min (- 1 + min 2 20) (int (length (generateMessagePreviews exampleEnv 6))))) = 1
   \<and> data (fst (fetchMessagePreviews exampleEnv 2 (Some ''-1'') exampleCaches))
       \<noteq> between (generateMessagePreviews exampleEnv 6) (- 1)
               (min (- 1 + min 2 20) (int (length (generateMessagePreviews exampleEnv 6))))"
proof -
  let ?g = "generateMessagePreviews exampleEnv 6"
  have d: "data (fst (fetchMessagePreviews exampleEnv 2 (Some ''-1'') exampleCaches)) = []"
    by (simp add: fetchMessagePreviews_hit[OF example_messageCache] previewsPage_def
        parseInt_examples Array_slice_def length_generateMessagePreviews)
  have l: "length (between ?g (- 1) (min (- 1 + min 2 20) (int (length ?g)))) = 1"
    by (simp add: length_between length_generateMessagePreviews)
  from l have n: "between ?g (- 1) (min (- 1 + min 2 20) (int (length ?g))) \<noteq> []"
    by auto
  show ?thesis
    using d l n by (simp add: example_messageCache parsedCursor_def parseInt_examples)
qed

text \<open>
  C1 (amended). For every call \<open>fetchMessagePreviews(count, cursor)\<close> served from an
  existing cache entry of length \<open>L\<close>, where \<open>start\<close> is the cursor parsed as an integer
  (0 when the cursor is absent) and neither \<open>start\<close> nor \<open>start + min(count, 20)\<close> is
  negative: the data is the slice \<open>[start, min(start + min(count, 20), L))\<close> of the cached
  sequence, \<open>hasMore\<close> holds exactly when that end index is less than \<open>L\<close>, \<open>nextCursor\<close>
  is the decimal string of the end index when \<open>hasMore\<close> and undefined otherwise, and the
  cache is unchanged. In particular, from an empty cache with \<open>count = 20\<close>, three calls
  chained through the returned cursors give pages of length 20 with \<open>nextCursor\<close>
  \<open>"20"\<close>, then \<open>"40"\<close>, then \<open>hasMore = false\<close> and no cursor.
\<close>

theorem C1_fetchMessagePreviews_page:
  assumes "messageCache st (previewsKey count) = Some xs"
    and "parsedCursor cursor 0 = Num start"
    and "0 \<le> start" and "0 \<le> start + min count 20"
  shows "fetchMessagePreviews e count cursor st =
           (\<lparr> data = between xs start (min (start + min count 20) (int (length xs))),
              hasMore = (min (start + min count 20) (int (length xs)) < int (length xs)),
              nextCursor =
                (if min (start + min count 20) (int (length xs)) < int (length xs)
                 then Some (toString (Num (min (start + min count 20) (int (length xs)))))
                 else None) \<rparr>, st)
         \<and> (case fetchMessagePreviews e1 20 None emptyCaches of (r1, s1) \<Rightarrow>
              case fetchMessagePreviews e2 20 (nextCursor r1) s1 of (r2, s2) \<Rightarrow>
                case fetchMessagePreviews e3 20 (nextCursor r2) s2 of (r3, s3) \<Rightarrow>
                  length (data r1) = 20 \<and> hasMore r1 \<and> nextCursor r1 = Some ''20''
                  \<and> length (data r2) = 20 \<and> hasMore r2 \<and> nextCursor r2 = Some ''40''
                  \<and> length (data r3) = 20 \<and> \<not> hasMore r3 \<and> nextCursor r3 = None)"
proof -
  have "fetchMessagePreviews e count cursor st = (previewsPage xs count cursor, st)"
    using assms(1) by (rule fetchMessagePreviews_hit)
  then show ?thesis
    using previewsPage_nonneg[OF assms(2-4), of xs] scenario_20[where ?e1.0=e1 and ?e2.0=e2 and ?e3.0=e3]
    by simp
qed

theorem C1_fetchMessagePreviews_page_witness:
  "messageCache exampleCaches (previewsKey 2) = Some (generateMessagePreviews exampleEnv 6)
   \<and> parsedCursor (Some ''2'') 0 = Num 2
   \<and> fetchMessagePreviews exampleEnv 2 (Some ''2'') exampleCaches =
        (\<lparr> data = between (generateMessagePreviews exampleEnv 6) 2 4,
           hasMore = True, nextCursor = Some ''4'' \<rparr>, exampleCaches)"
proof -
  have p: "parsedCursor (Some ''2'') 0 = Num 2"
    by (simp add: parsedCursor_def parseInt_examples)
  have a: "(0::int) \<le> 2" and b: "(0::int) \<le> 2 + min 2 20" by simp_all
  from C1_fetchMessagePreviews_page[OF example_messageCache p a b, of exampleEnv]
  show ?thesis
    by (simp add: example_messageCache p length_generateMessagePreviews toString_examples)
qed

text \<open>
  C2 (as stated) fails for a cursor that parses to a negative integer.
  With the six cached messages of conversation \<open>c1\<close> and the cursor \<open>-1\<close>, the claim's slice
  \<open>[max(-1 - 2, 0), -1) = [0, -1)\<close> is empty, but the operation returns five messages:
  \<open>Array.prototype.slice\<close> counts a negative end from the end of the array.
\<close>

theorem C2_negative_cursor_counterexample:
  "chatCache exampleCaches (chatKey ''c1'') = Some (generateChatMessages exampleEnv ''c1'' 6)
   \<and> parsedCursor (Some ''-1'') (int (length (generateChatMessages exampleEnv ''c1'' 6))) = Num (- 1)
   \<and> length (data (fst (fetchChatMessages exampleEnv ''c1'' 2 (Some ''-1'') exampleCaches))) = 5
   \<and> between (generateChatMessages exampleEnv ''c1'' 6) (max (- 1 - min 2 20) 0) (- 1) = []
   \<and> data (fst (fetchChatMessages exampleEnv ''c1'' 2 (Some ''-1'') exampleCaches))
       \<noteq> between (generateChatMessages exampleEnv ''c1'' 6) (max (- 1 - min 2 20) 0) (- 1)"
proof -
  let ?g = "generateChatMessages exampleEnv ''c1'' 6"
  have d: "length (data (fst (fetchChatMessages exampleEnv ''c1'' 2 (Some ''-1'') exampleCaches))) = 5"
    by (simp add: fetchChatMessages_hit[OF example_chatCache] chatPage_def
        parseInt_examples Array_slice_def length_generateChatMessages)
  have l: "between ?g (max (- 1 - min 2 20) 0) (- 1) = []"
    by (simp add: between_drop_take)
  from d have n: "data (fst (fetchChatMessages exampleEnv ''c1'' 2 (Some ''-1'') exampleCaches)) \<noteq> []"
    by auto
  show ?thesis
    using d l n by (simp add: example_chatCache parsedCursor_def parseInt_examples)
qed

text \<open>
  C2 (amended). For every call \<open>fetchChatMessages(conversationId, count, cursor)\<close> served
  from an existing cache entry of length \<open>L\<close>, where \<open>end\<close> is the cursor parsed as an
  integer (\<open>L\<close> when the cursor is absent), \<open>end\<close> is not negative, and \<open>end\<close> and
  \<open>end - min(count, 20)\<close> are at most \<open>2^53 - 1\<close> (so that the indices are safe integers,
  on which the service computes exactly): the data is the slice
  \<open>[max(end - min(count, 20), 0), end)\<close> of the cached sequence in its oldest-first order,
  \<open>hasMore\<close> holds exactly when that start index is greater than 0, \<open>nextCursor\<close> is the
  decimal string of the start index when \<open>hasMore\<close> and undefined otherwise, and the cache
  is unchanged.
\<close>

theorem C2_fetchChatMessages_page:
  assumes "chatCache st (chatKey convId) = Some xs"
    and "parsedCursor cursor (int (length xs)) = Num end'"
    and "0 \<le> end'"
    and "end' \<le> MAX_SAFE_INTEGER"
    and "end' - min count 20 \<le> MAX_SAFE_INTEGER"
  shows "fetchChatMessages e convId count cursor st =
           (\<lparr> data = between xs (max (end' - min count 20) 0) end',
              hasMore = (max (end' - min count 20) 0 > 0),
              nextCursor =
                (if max (end' - min count 20) 0 > 0
                 then Some (toString (Num (max (end' - min count 20) 0)))
                 else None) \<rparr>, st)"
proof -
  have "fetchChatMessages e convId count cursor st = (chatPage xs count cursor, st)"
    using assms(1) by (rule fetchChatMessages_hit)
  then show ?thesis
    using chatPage_nonneg[OF assms(2,3), of count] by simp
qed

theorem C2_fetchChatMessages_page_witness:
  "chatCache exampleCaches (chatKey ''c1'') = Some (generateChatMessages exampleEnv ''c1'' 6)
   \<and> parsedCursor (Some ''4'') (int (length (generateChatMessages exampleEnv ''c1'' 6))) = Num 4
   \<and> (4::int) \<le> MAX_SAFE_INTEGER \<and> (4::int) - min 2 20 \<le> MAX_SAFE_INTEGER
   \<and> fetchChatMessages exampleEnv ''c1'' 2 (Some ''4'') exampleCaches =
        (\<lparr> data = between (generateChatMessages exampleEnv ''c1'' 6) 2 4,
           hasMore = True, nextCursor = Some ''2'' \<rparr>, exampleCaches)"
proof -
  have p: "parsedCursor (Some ''4'') (int (length (generateChatMessages exampleEnv ''c1'' 6))) = Num 4"
    by (simp add: parsedCursor_def parseInt_examples)
  have a: "(0::int) \<le> 4" by simp
  have b: "(4::int) \<le> MAX_SAFE_INTEGER" and c: "(4::int) - min 2 20 \<le> MAX_SAFE_INTEGER"
    by (simp_all add: MAX_SAFE_INTEGER_def)
  from C2_fetchChatMessages_page[OF example_chatCache p a b c, of exampleEnv] b c
  show ?thesis
    by (simp add: example_chatCache p toString_examples)
qed

lemma previewsPage_NaN:
  assumes "c \<noteq> []" "parseInt c = NaN"
  shows "previewsPage xs count (Some c) = \<lparr> data = [], hasMore = False, nextCursor = None \<rparr>"
  using assms by (simp add: previewsPage_def Array_slice_def)

lemma chatPage_NaN:
  assumes "c \<noteq> []" "parseInt c = NaN"
  shows "chatPage xs count (Some c) = \<lparr> data = [], hasMore = False, nextCursor = None \<rparr>"
  using assms by (simp add: chatPage_def Array_slice_def)

lemma previewsPage_falsy: "previewsPage xs count (Some []) = previewsPage xs count None"
  by (simp add: previewsPage_def)

lemma chatPage_falsy: "chatPage xs count (Some []) = chatPage xs count None"
  by (simp add: chatPage_def)

lemma parsedCursor_examples:
  "parsedCursor (Some ''2'') d = Num 2" "parsedCursor (Some ''4'') d = Num 4"
  by (simp_all add: parsedCursor_def parseInt_examples)

text \<open>The pages of the example cache, two items per page.\<close>

lemma example_previewsPages:
  "previewsPage (generateMessagePreviews exampleEnv 6) 2 None =
      \<lparr> data = between (generateMessagePreviews exampleEnv 6) 0 2,
        hasMore = True, nextCursor = Some ''2'' \<rparr>"
  "previewsPage (generateMessagePreviews exampleEnv 6) 2 (Some ''2'') =
      \<lparr> data = between (generateMessagePreviews exampleEnv 6) 2 4,
        hasMore = True, nextCursor = Some ''4'' \<rparr>"
  "previewsPage (generateMessagePreviews exampleEnv 6) 2 (Some ''4'') =
      \<lparr> data = between (generateMessagePreviews exampleEnv 6) 4 6,
        hasMore = False, nextCursor = None \<rparr>"
  using previewsPage_nonneg[OF parsedCursor_None,
          where xs="generateMessagePreviews exampleEnv 6" and count=2]
        previewsPage_nonneg[OF parsedCursor_examples(1),
          where xs="generateMessagePreviews exampleEnv 6" and count=2]
        previewsPage_nonneg[OF parsedCursor_examples(2),
          where xs="generateMessagePreviews exampleEnv 6" and count=2]
  by (simp_all add: length_generateMessagePreviews toString_examples)

lemma example_chatPages:
  "chatPage (generateChatMessages exampleEnv ''c1'' 6) 2 None =
      \<lparr> data = between (generateChatMessages exampleEnv ''c1'' 6) 4 6,
        hasMore = True, nextCursor = Some ''4'' \<rparr>"
  "chatPage (generateChatMessages exampleEnv ''c1'' 6) 2 (Some ''4'') =
      \<lparr> data = between (generateChatMessages exampleEnv ''c1'' 6) 2 4,
        hasMore = True, nextCursor = Some ''2'' \<rparr>"
  "chatPage (generateChatMessages exampleEnv ''c1'' 6) 2 (Some ''2'') =
      \<lparr> data = between (generateChatMessages exampleEnv ''c1'' 6) 0 2,
        hasMore = False, nextCursor = None \<rparr>"
  using chatPage_nonneg[OF parsedCursor_None,
          where xs="generateChatMessages exampleEnv ''c1'' 6" and count=2]
        chatPage_nonneg[OF parsedCursor_examples(2),
          where xs="generateChatMessages exampleEnv ''c1'' 6" and count=2]
        chatPage_nonneg[OF parsedCursor_examples(1),
          where xs="generateChatMessages exampleEnv ''c1'' 6" and count=2]
  by (simp_all add: length_generateChatMessages toString_examples)

text \<open>
  C10 (as stated) fails for the empty string: \<open>parseInt\<close> yields \<open>NaN\<close> on it, but the
  operations never parse it. The test \<open>cursor ? ... : ...\<close> takes the empty string as no
  cursor, and the first page is returned: two items, \<open>hasMore\<close> true and a next cursor.
\<close>

theorem C10_empty_cursor_counterexample:
  "parseInt '''' = NaN
   \<and> length (data (fst (fetchMessagePreviews exampleEnv 2 (Some '''') exampleCaches))) = 2
   \<and> hasMore (fst (fetchMessagePreviews exampleEnv 2 (Some '''') exampleCaches))
   \<and> nextCursor (fst (fetchMessagePreviews exampleEnv 2 (Some '''') exampleCaches)) = Some ''2''
   \<and> length (data (fst (fetchChatMessages exampleEnv ''c1'' 2 (Some '''') exampleCaches))) = 2
   \<and> hasMore (fst (fetchChatMessages exampleEnv ''c1'' 2 (Some '''') exampleCaches))
   \<and> nextCursor (fst (fetchChatMessages exampleEnv ''c1'' 2 (Some '''') exampleCaches)) = Some ''4''"
  by (simp add: parseInt_examples fetchMessagePreviews_hit[OF example_messageCache]
      fetchChatMessages_hit[OF example_chatCache] previewsPage_falsy chatPage_falsy
      example_previewsPages example_chatPages length_between
      length_generateMessagePreviews length_generateChatMessages)

text \<open>
  C10 (amended). For every non-empty cursor string that does not parse as an integer
  (\<open>parseInt\<close> yields \<open>NaN\<close>), \<open>fetchMessagePreviews\<close> and \<open>fetchChatMessages\<close> return a
  page with empty data, \<open>hasMore\<close> false and no next cursor, whatever the cache holds.
  Both operations are total functions of the model: no path of them throws.
\<close>

theorem C10_unparsable_cursor:
  assumes "c \<noteq> []" and "parseInt c = NaN"
  shows "fst (fetchMessagePreviews e count (Some c) st)
           = \<lparr> data = [], hasMore = False, nextCursor = None \<rparr>
       \<and> fst (fetchChatMessages e convId count (Some c) st)
           = \<lparr> data = [], hasMore = False, nextCursor = None \<rparr>"
proof -
  have "fst (fetchMessagePreviews e count (Some c) st)
           = \<lparr> data = [], hasMore = False, nextCursor = None \<rparr>"
    by (cases "messageCache st (previewsKey count)")
       (simp_all add: fetchMessagePreviews_hit fetchMessagePreviews_miss previewsPage_NaN[OF assms])
  moreover have "fst (fetchChatMessages e convId count (Some c) st)
           = \<lparr> data = [], hasMore = False, nextCursor = None \<rparr>"
    by (cases "chatCache st (chatKey convId)")
       (simp_all add: fetchChatMessages_hit fetchChatMessages_miss chatPage_NaN[OF assms])
  ultimately show ?thesis by simp
qed

theorem C10_unparsable_cursor_witness:
  "''abc'' \<noteq> [] \<and> parseInt ''abc'' = NaN
   \<and> fst (fetchMessagePreviews exampleEnv 2 (Some ''abc'') exampleCaches)
        = \<lparr> data = [], hasMore = False, nextCursor = None \<rparr>
   \<and> fst (fetchChatMessages exampleEnv ''c1'' 2 (Some ''abc'') exampleCaches)
        = \<lparr> data = [], hasMore = False, nextCursor = None \<rparr>"
proof -
  have a: "''abc'' \<noteq> []" by simp
  have b: "parseInt ''abc'' = NaN" by (simp add: parseInt_examples)
  from C10_unparsable_cursor[OF a b, of exampleEnv 2 exampleCaches "''c1''"] a b
  show ?thesis by simp
qed

text \<open>
  C7 (as stated) fails: the page is not empty. Over the six cached previews of
  \<open>previews-2\<close>, \<open>"4"\<close> is the last cursor of the chain: the page for \<open>"2"\<close> returns it, and
  the page for \<open>"4"\<close> has \<open>hasMore\<close> false and leaves the cache as it is. Every call with
  \<open>"4"\<close> returns that page of two items. Likewise for conversation \<open>c1\<close>, where the last
  cursor is \<open>"2"\<close>.
\<close>

theorem C7_last_cursor_counterexample:
  "nextCursor (fst (fetchMessagePreviews exampleEnv 2 (Some ''2'') exampleCaches)) = Some ''4''
   \<and> hasMore (fst (fetchMessagePreviews exampleEnv 2 (Some ''4'') exampleCaches)) = False
   \<and> snd (fetchMessagePreviews exampleEnv 2 (Some ''4'') exampleCaches) = exampleCaches
   \<and> length (data (fst (fetchMessagePreviews exampleEnv 2 (Some ''4'') exampleCaches))) = 2
   \<and> nextCursor (fst (fetchChatMessages exampleEnv ''c1'' 2 (Some ''4'') exampleCaches)) = Some ''2''
   \<and> hasMore (fst (fetchChatMessages exampleEnv ''c1'' 2 (Some ''2'') exampleCaches)) = False
   \<and> snd (fetchChatMessages exampleEnv ''c1'' 2 (Some ''2'') exampleCaches) = exampleCaches
   \<and> length (data (fst (fetchChatMessages exampleEnv ''c1'' 2 (Some ''2'') exampleCaches))) = 2"
  by (simp add: fetchMessagePreviews_hit[OF example_messageCache]
      fetchChatMessages_hit[OF example_chatCache] example_previewsPages example_chatPages
      length_between length_generateMessagePreviews length_generateChatMessages)

text \<open>
  C7 (amended). For both operations, over an existing cache entry: when the call with a
  cursor that the operation returned (the decimal string of an index \<open>s\<close>, with
  \<open>s < L\<close> for the conversation list and \<open>0 < s \<le> L\<close> for a conversation, \<open>L\<close> the
  length of the entry) has \<open>hasMore\<close> false, then calling again with that cursor returns
  the same page and leaves the cache as it is; the page has \<open>hasMore\<close> false and no next
  cursor, and it is the last page of the data, which is not empty: the items from \<open>s\<close> on
  for the conversation list, the first \<open>s\<close> items for a conversation.
\<close>

theorem C7_last_cursor_again:
  "(messageCache st (previewsKey count) = Some ps \<and> s < length ps
      \<and> \<not> hasMore (fst (fetchMessagePreviews e count (Some (toString (Num (int s)))) st))
    \<longrightarrow> fetchMessagePreviews e' count (Some (toString (Num (int s))))
            (snd (fetchMessagePreviews e count (Some (toString (Num (int s)))) st))
          = (\<lparr> data = drop s ps, hasMore = False, nextCursor = None \<rparr>, st)
        \<and> fetchMessagePreviews e count (Some (toString (Num (int s)))) st
          = (\<lparr> data = drop s ps, hasMore = False, nextCursor = None \<rparr>, st)
        \<and> drop s ps \<noteq> [])
   \<and> (chatCache st (chatKey convId) = Some ms \<and> 0 < t \<and> t \<le> length ms
      \<and> \<not> hasMore (fst (fetchChatMessages e convId count (Some (toString (Num (int t)))) st))
    \<longrightarrow> fetchChatMessages e' convId count (Some (toString (Num (int t))))
            (snd (fetchChatMessages e convId count (Some (toString (Num (int t)))) st))
          = (\<lparr> data = take t ms, hasMore = False, nextCursor = None \<rparr>, st)
        \<and> fetchChatMessages e convId count (Some (toString (Num (int t)))) st
          = (\<lparr> data = take t ms, hasMore = False, nextCursor = None \<rparr>, st)
        \<and> take t ms \<noteq> [])"
proof (intro conjI impI)
  assume a: "messageCache st (previewsKey count) = Some ps \<and> s < length ps
      \<and> \<not> hasMore (fst (fetchMessagePreviews e count (Some (toString (Num (int s)))) st))"
  let ?c = "Some (toString (Num (int s)))"
  have pos: "0 \<le> int s" by simp
  from a have hit: "messageCache st (previewsKey count) = Some ps" by simp
  have nh: "\<not> hasMore (previewsPage ps count ?c)"
    using a by (simp add: fetchMessagePreviews_hit[OF hit])
  have e: "\<not> min (int s + min count 20) (int (length ps)) < int (length ps)"
    using nh by (simp add: previewsPage_def Let_def parseInt_toString toString_nonempty)
  then have e2: "0 \<le> int s + min count 20" "min (int s + min count 20) (int (length ps)) = int (length ps)"
    by auto
  have page: "previewsPage ps count ?c = \<lparr> data = drop s ps, hasMore = False, nextCursor = None \<rparr>"
    using previewsPage_nonneg[OF parsedCursor_toString pos e2(1), where xs=ps] e2(2)
    by (simp add: between_drop_take)
  show first: "fetchMessagePreviews e count ?c st
          = (\<lparr> data = drop s ps, hasMore = False, nextCursor = None \<rparr>, st)"
    using page by (simp add: fetchMessagePreviews_hit[OF hit])
  show "fetchMessagePreviews e' count ?c (snd (fetchMessagePreviews e count ?c st))
          = (\<lparr> data = drop s ps, hasMore = False, nextCursor = None \<rparr>, st)"
    using page by (simp add: first fetchMessagePreviews_hit[OF hit])
  show "drop s ps \<noteq> []" using a by simp
next
  assume a: "chatCache st (chatKey convId) = Some ms \<and> 0 < t \<and> t \<le> length ms
      \<and> \<not> hasMore (fst (fetchChatMessages e convId count (Some (toString (Num (int t)))) st))"
  let ?c = "Some (toString (Num (int t)))"
  have pos: "0 \<le> int t" by simp
  from a have hit: "chatCache st (chatKey convId) = Some ms" by simp
  have nh: "\<not> hasMore (chatPage ms count ?c)"
    using a by (simp add: fetchChatMessages_hit[OF hit])
  have e: "\<not> max (int t - min count 20) 0 > 0"
    using nh by (simp add: chatPage_def Let_def parseInt_toString toString_nonempty)
  then have e2: "max (int t - min count 20) 0 = 0"
    by auto
  have page: "chatPage ms count ?c = \<lparr> data = take t ms, hasMore = False, nextCursor = None \<rparr>"
    using chatPage_nonneg[OF parsedCursor_toString pos, where xs=ms and count=count] e2
    by (simp add: between_drop_take)
  show first: "fetchChatMessages e convId count ?c st
          = (\<lparr> data = take t ms, hasMore = False, nextCursor = None \<rparr>, st)"
    using page by (simp add: fetchChatMessages_hit[OF hit])
  show "fetchChatMessages e' convId count ?c (snd (fetchChatMessages e convId count ?c st))
          = (\<lparr> data = take t ms, hasMore = False, nextCursor = None \<rparr>, st)"
    using page by (simp add: first fetchChatMessages_hit[OF hit])
  show "take t ms \<noteq> []" using a by auto
qed

theorem C7_last_cursor_again_witness:
  "fetchMessagePreviews exampleEnv 2 (Some (toString (Num (int 4)))) exampleCaches
     = (\<lparr> data = drop 4 (generateMessagePreviews exampleEnv 6), hasMore = False,
          nextCursor = None \<rparr>, exampleCaches)
   \<and> drop 4 (generateMessagePreviews exampleEnv 6) \<noteq> []
   \<and> fetchChatMessages exampleEnv ''c1'' 2 (Some (toString (Num (int 2)))) exampleCaches
     = (\<lparr> data = take 2 (generateChatMessages exampleEnv ''c1'' 6), hasMore = False,
          nextCursor = None \<rparr>, exampleCaches)
   \<and> take 2 (generateChatMessages exampleEnv ''c1'' 6) \<noteq> []"
proof -
  have h1: "\<not> hasMore (fst (fetchMessagePreviews exampleEnv 2 (Some (toString (Num (int 4))))
      exampleCaches))"
    by (simp add: toString_examples fetchMessagePreviews_hit[OF example_messageCache]
        example_previewsPages)
  have h2: "\<not> hasMore (fst (fetchChatMessages exampleEnv ''c1'' 2 (Some (toString (Num (int 2))))
      exampleCaches))"
    by (simp add: toString_examples fetchChatMessages_hit[OF example_chatCache]
        example_chatPages)
  have l1: "4 < length (generateMessagePreviews exampleEnv 6)"
    by (simp add: length_generateMessagePreviews)
  have l2: "(0::nat) < 2" "2 \<le> length (generateChatMessages exampleEnv ''c1'' 6)"
    by (simp_all add: length_generateChatMessages)
  from C7_last_cursor_again[of exampleCaches 2 "generateMessagePreviews exampleEnv 6" 4
      exampleEnv exampleEnv "''c1''" "generateChatMessages exampleEnv ''c1'' 6" 2]
    example_messageCache example_chatCache h1 h2 l1 l2
  show ?thesis by blast
qed

text \<open>
  C8. For every conversation id and text, \<open>sendMessage\<close> returns a newly built outgoing
  message (\<open>isSent\<close>, sender \<open>current-user\<close>, the given conversation id and text, the
  identifier that \<open>generateId()\<close> drew, the current time) and changes at most the entry
  \<open>chat-{conversationId}\<close> of the chat cache: when the entry exists the message is
  appended at its end; when it does not exist the cache is left as it is; the preview
  cache and every other entry of the chat cache are unchanged.
\<close>

theorem C8_sendMessage:
  "fst (sendMessage e convId txt st) =
       \<lparr> message_id = generateId e, conversationId = convId, senderId = ''current-user'',
         message_text = txt, message_timestamp = Date_now e, isSent = True \<rparr>
   \<and> messageCache (snd (sendMessage e convId txt st)) = messageCache st
   \<and> (\<forall>allMessages. chatCache st (chatKey convId) = Some allMessages \<longrightarrow>
         chatCache (snd (sendMessage e convId txt st)) (chatKey convId)
           = Some (allMessages @ [fst (sendMessage e convId txt st)]))
   \<and> (chatCache st (chatKey convId) = None \<longrightarrow> snd (sendMessage e convId txt st) = st)
   \<and> (\<forall>k. k \<noteq> chatKey convId \<longrightarrow>
         chatCache (snd (sendMessage e convId txt st)) k = chatCache st k)"
  by (cases "chatCache st (chatKey convId)") (simp_all add: sendMessage_def Let_def)

theorem C8_sendMessage_witness:
  "conversationId (fst (sendMessage exampleEnv ''c1'' ''hi'' exampleCaches)) = ''c1''
   \<and> isSent (fst (sendMessage exampleEnv ''c1'' ''hi'' exampleCaches))
   \<and> chatCache (snd (sendMessage exampleEnv ''c1'' ''hi'' exampleCaches)) (chatKey ''c1'')
       = Some (generateChatMessages exampleEnv ''c1'' 6
               @ [fst (sendMessage exampleEnv ''c1'' ''hi'' exampleCaches)])
   \<and> snd (sendMessage exampleEnv ''c2'' ''hi'' exampleCaches) = exampleCaches
   \<and> chatCache (snd (sendMessage exampleEnv ''c2'' ''hi'' exampleCaches)) (chatKey ''c1'')
       = chatCache exampleCaches (chatKey ''c1'')"
proof -
  have none: "chatCache exampleCaches (chatKey ''c2'') = None"
    by (simp add: exampleCaches_eq chatKey_def)
  have ne: "chatKey ''c1'' \<noteq> chatKey ''c2''"
    by (simp add: chatKey_def)
  from C8_sendMessage[of exampleEnv "''c1''" "''hi''" exampleCaches]
       C8_sendMessage[of exampleEnv "''c2''" "''hi''" exampleCaches]
       example_chatCache none ne
  show ?thesis by simp
qed

lemma perform_messageCache_kept:
  assumes "c \<noteq> ClearCache" "messageCache st k = Some xs"
  shows "messageCache (perform c st) k = Some xs"
proof (cases c)
  case (FetchMessagePreviews e count cursor)
  then show ?thesis using assms(2)
    by (auto simp: fetchMessagePreviews_def Let_def split: option.splits)
next
  case (FetchChatMessages e convId count cursor)
  then show ?thesis using assms(2)
    by (auto simp: fetchChatMessages_def Let_def split: option.splits)
next
  case (SendMessage e convId body)
  then show ?thesis using assms(2)
    by (auto simp: sendMessage_def Let_def split: option.splits)
next
  case ClearCache
  with assms(1) show ?thesis by simp
qed

lemma performAll_messageCache_kept:
  "ClearCache \<notin> set calls \<Longrightarrow> messageCache st k = Some xs \<Longrightarrow>
     messageCache (performAll calls st) k = Some xs"
  unfolding performAll_def
proof (induction calls arbitrary: st)
  case Nil
  then show ?case by simp
next
  case (Cons c calls)
  then have "messageCache (perform c st) k = Some xs"
    by (intro perform_messageCache_kept) auto
  with Cons show ?case by simp
qed

lemma fst_sendMessage:
  "fst (sendMessage e convId txt st) =
       \<lparr> message_id = generateId e, conversationId = convId, senderId = ''current-user'',
         message_text = txt, message_timestamp = Date_now e, isSent = True \<rparr>"
  by (cases "chatCache st (chatKey convId)") (simp_all add: sendMessage_def Let_def)

lemma chatKey_inj: "chatKey a = chatKey b \<longleftrightarrow> a = b"
  by (simp add: chatKey_def)

lemma perform_chatCache_sent:
  assumes "c \<noteq> ClearCache" "chatCache st (chatKey convId) = Some xs"
  shows "chatCache (perform c st) (chatKey convId) = Some (xs @ sentTo convId [c])"
proof (cases c)
  case (FetchMessagePreviews e count cursor)
  then show ?thesis using assms(2)
    by (auto simp: fetchMessagePreviews_def Let_def split: option.splits)
next
  case (FetchChatMessages e convId' count cursor)
  then show ?thesis using assms(2)
    by (auto simp: fetchChatMessages_def Let_def split: option.splits)
next
  case (SendMessage e convId' body)
  show ?thesis
  proof (cases "convId' = convId")
    case True
    with SendMessage assms(2) show ?thesis
      by (simp add: fst_sendMessage) (simp add: sendMessage_def Let_def)
  next
    case False
    with SendMessage assms(2) show ?thesis
      by (auto simp: sendMessage_def Let_def chatKey_inj split: option.splits)
  qed
next
  case ClearCache
  with assms(1) show ?thesis by simp
qed

lemma sentTo_Cons: "sentTo convId (c # calls) = sentTo convId [c] @ sentTo convId calls"
  by (cases c) simp_all

lemma performAll_chatCache_sent:
  "ClearCache \<notin> set calls \<Longrightarrow> chatCache st (chatKey convId) = Some xs \<Longrightarrow>
     chatCache (performAll calls st) (chatKey convId) = Some (xs @ sentTo convId calls)"
  unfolding performAll_def
proof (induction calls arbitrary: st xs)
  case Nil
  then show ?case by simp
next
  case (Cons c calls)
  then have "chatCache (perform c st) (chatKey convId) = Some (xs @ sentTo convId [c])"
    by (intro perform_chatCache_sent) auto
  with Cons.IH[of "perform c st" "xs @ sentTo convId [c]"] Cons.prems(1)
  show ?case by (simp add: sentTo_Cons[of convId c calls])
qed

text \<open>
  C4 (as stated) fails for a negative page size: the sequence generated on the first
  fetch does not have 3 times that many items. For \<open>count = -1\<close> both operations call their
  generator with \<open>-3\<close>, \<open>Array.from\<close> takes a negative length as 0, and the entry stored
  under \<open>previews--1\<close>, respectively \<open>chat-c1\<close>, is empty.
\<close>

theorem C4_negative_count_counterexample:
  "messageCache emptyCaches (previewsKey (- 1)) = None
   \<and> messageCache (snd (fetchMessagePreviews exampleEnv (- 1) None emptyCaches))
        (previewsKey (- 1)) = Some (generateMessagePreviews exampleEnv (- 1 * 3))
   \<and> length (generateMessagePreviews exampleEnv (- 1 * 3)) = 0
   \<and> int (length (generateMessagePreviews exampleEnv (- 1 * 3))) \<noteq> 3 * (- 1)
   \<and> chatCache emptyCaches (chatKey ''c1'') = None
   \<and> chatCache (snd (fetchChatMessages exampleEnv ''c1'' (- 1) None emptyCaches))
        (chatKey ''c1'') = Some (generateChatMessages exampleEnv ''c1'' (- 1 * 3))
   \<and> length (generateChatMessages exampleEnv ''c1'' (- 1 * 3)) = 0
   \<and> int (length (generateChatMessages exampleEnv ''c1'' (- 1 * 3))) \<noteq> 3 * (- 1)"
proof -
  have m: "messageCache emptyCaches (previewsKey (- 1)) = None"
    and c: "chatCache emptyCaches (chatKey ''c1'') = None"
    by (simp_all add: emptyCaches_def)
  show ?thesis
    by (simp add: m c fetchMessagePreviews_miss[OF m] fetchChatMessages_miss[OF c]
        length_generateMessagePreviews length_generateChatMessages)
qed

text \<open>
  C4 (amended). The first fetch for a key (no entry under \<open>previews-{count}\<close>, respectively under
  \<open>chat-{conversationId}\<close>) stores the sequence generated for \<open>3 * count\<close> items, which
  has exactly \<open>3 * count\<close> items for a count that is not negative, and serves its page from
  it. Whatever calls of the four operations follow, as long as \<open>clearCache\<close> is not among
  them, the entry is never generated again: the preview entry stays the stored sequence,
  the chat entry is the stored sequence followed by the messages that \<open>sendMessage\<close>
  appended to this conversation, and a later fetch with the same key serves its page from
  that entry and leaves the cache as it is.
\<close>

theorem C4_cache_entry_created_once:
  assumes "ClearCache \<notin> set calls"
  shows "(messageCache st (previewsKey count) = None \<longrightarrow>
            fetchMessagePreviews e count cursor st
              = (previewsPage (generateMessagePreviews e (count * 3)) count cursor,
                 st\<lparr> messageCache := (messageCache st)
                       (previewsKey count \<mapsto> generateMessagePreviews e (count * 3)) \<rparr>)
          \<and> (0 \<le> count \<longrightarrow> int (length (generateMessagePreviews e (count * 3))) = 3 * count)
          \<and> messageCache (performAll calls (snd (fetchMessagePreviews e count cursor st)))
               (previewsKey count) = Some (generateMessagePreviews e (count * 3))
          \<and> fetchMessagePreviews e' count cursor'
               (performAll calls (snd (fetchMessagePreviews e count cursor st)))
              = (previewsPage (generateMessagePreviews e (count * 3)) count cursor',
                 performAll calls (snd (fetchMessagePreviews e count cursor st))))
       \<and> (chatCache st (chatKey convId) = None \<longrightarrow>
            fetchChatMessages e convId count cursor st
              = (chatPage (generateChatMessages e convId (count * 3)) count cursor,
                 st\<lparr> chatCache := (chatCache st)
                       (chatKey convId \<mapsto> generateChatMessages e convId (count * 3)) \<rparr>)
          \<and> (0 \<le> count \<longrightarrow> int (length (generateChatMessages e convId (count * 3))) = 3 * count)
          \<and> chatCache (performAll calls (snd (fetchChatMessages e convId count cursor st)))
               (chatKey convId)
              = Some (generateChatMessages e convId (count * 3) @ sentTo convId calls)
          \<and> fetchChatMessages e' convId count' cursor'
               (performAll calls (snd (fetchChatMessages e convId count cursor st)))
              = (chatPage (generateChatMessages e convId (count * 3) @ sentTo convId calls)
                   count' cursor',
                 performAll calls (snd (fetchChatMessages e convId count cursor st))))"
proof (intro conjI impI)
  assume miss: "messageCache st (previewsKey count) = None"
  let ?g = "generateMessagePreviews e (count * 3)"
  let ?st1 = "st\<lparr> messageCache := (messageCache st)(previewsKey count \<mapsto> ?g) \<rparr>"
  show first: "fetchMessagePreviews e count cursor st = (previewsPage ?g count cursor, ?st1)"
    using miss by (rule fetchMessagePreviews_miss)
  have "messageCache ?st1 (previewsKey count) = Some ?g" by simp
  then show kept: "messageCache (performAll calls (snd (fetchMessagePreviews e count cursor st)))
      (previewsKey count) = Some ?g"
    unfolding first snd_conv by (rule performAll_messageCache_kept[OF assms])
  show "fetchMessagePreviews e' count cursor'
          (performAll calls (snd (fetchMessagePreviews e count cursor st)))
        = (previewsPage ?g count cursor',
           performAll calls (snd (fetchMessagePreviews e count cursor st)))"
    using kept by (rule fetchMessagePreviews_hit)
next
  assume "0 \<le> count"
  then show "int (length (generateMessagePreviews e (count * 3))) = 3 * count"
    by (simp add: length_generateMessagePreviews)
next
  assume miss: "chatCache st (chatKey convId) = None"
  let ?g = "generateChatMessages e convId (count * 3)"
  let ?st1 = "st\<lparr> chatCache := (chatCache st)(chatKey convId \<mapsto> ?g) \<rparr>"
  show first: "fetchChatMessages e convId count cursor st = (chatPage ?g count cursor, ?st1)"
    using miss by (rule fetchChatMessages_miss)
  have "chatCache ?st1 (chatKey convId) = Some ?g" by simp
  then show kept: "chatCache (performAll calls (snd (fetchChatMessages e convId count cursor st)))
      (chatKey convId) = Some (?g @ sentTo convId calls)"
    unfolding first snd_conv by (rule performAll_chatCache_sent[OF assms])
  show "fetchChatMessages e' convId count' cursor'
          (performAll calls (snd (fetchChatMessages e convId count cursor st)))
        = (chatPage (?g @ sentTo convId calls) count' cursor',
           performAll calls (snd (fetchChatMessages e convId count cursor st)))"
    using kept by (rule fetchChatMessages_hit)
next
  assume "0 \<le> count"
  then show "int (length (generateChatMessages e convId (count * 3))) = 3 * count"
    by (simp add: length_generateChatMessages)
qed

theorem C4_cache_entry_created_once_witness:
  "ClearCache \<notin> set exampleCalls
   \<and> messageCache emptyCaches (previewsKey 2) = None
   \<and> chatCache emptyCaches (chatKey ''c1'') = None
   \<and> int (length (generateMessagePreviews exampleEnv (2 * 3))) = 3 * 2
   \<and> messageCache (performAll exampleCalls (snd (fetchMessagePreviews exampleEnv 2 None emptyCaches)))
        (previewsKey 2) = Some (generateMessagePreviews exampleEnv (2 * 3))
   \<and> chatCache (performAll exampleCalls (snd (fetchChatMessages exampleEnv ''c1'' 2 None emptyCaches)))
        (chatKey ''c1'')
      = Some (generateChatMessages exampleEnv ''c1'' (2 * 3)
              @ [fst (sendMessage exampleEnv ''c1'' ''hi'' emptyCaches)])"
proof -
  have a: "ClearCache \<notin> set exampleCalls"
    by (simp add: exampleCalls_def)
  have b: "messageCache emptyCaches (previewsKey 2) = None"
    and c: "chatCache emptyCaches (chatKey ''c1'') = None"
    by (simp_all add: emptyCaches_def)
  have d: "(0::int) \<le> 2" by simp
  have s: "sentTo ''c1'' exampleCalls = [fst (sendMessage exampleEnv ''c1'' ''hi'' emptyCaches)]"
    by (simp add: exampleCalls_def)
  note t = C4_cache_entry_created_once[OF a, of emptyCaches 2 exampleEnv None exampleEnv None
      "''c1''" 2]
  from t b d have l: "int (length (generateMessagePreviews exampleEnv (2 * 3))) = 3 * 2"
    by blast
  from t b have m: "messageCache
      (performAll exampleCalls (snd (fetchMessagePreviews exampleEnv 2 None emptyCaches)))
        (previewsKey 2) = Some (generateMessagePreviews exampleEnv (2 * 3))"
    by blast
  from t c have ch: "chatCache
      (performAll exampleCalls (snd (fetchChatMessages exampleEnv ''c1'' 2 None emptyCaches)))
        (chatKey ''c1'')
      = Some (generateChatMessages exampleEnv ''c1'' (2 * 3) @ sentTo ''c1'' exampleCalls)"
    by blast
  from a b c l m ch[unfolded s] show ?thesis
    by blast
qed

lemma drop_take_append_drop:
  "a \<le> b \<Longrightarrow> drop a (take b xs) @ drop b xs = drop a xs"
proof -
  assume "a \<le> b"
  have "drop a xs = drop a (take b xs @ drop b xs)" by simp
  also have "\<dots> = drop a (take b xs) @ drop (a - length (take b xs)) (drop b xs)"
    by (rule drop_append)
  also have "drop (a - length (take b xs)) (drop b xs) = drop b xs"
    using \<open>a \<le> b\<close> by (cases "b \<le> length xs") (simp_all add: min_def)
  finally show ?thesis by simp
qed

lemma take_append_drop_take:
  "a \<le> b \<Longrightarrow> take a xs @ drop a (take b xs) = take b xs"
proof -
  assume "a \<le> b"
  then have "take a (take b xs) = take a xs" by (simp add: min_def)
  then show ?thesis
    using append_take_drop_id[of a "take b xs"] by simp
qed

text \<open>The cursor chain of the conversation list over an existing entry: from the
  position \<open>s\<close> on, it collects the rest of the entry.\<close>

lemma forwardChain_from:
  assumes "messageCache st (previewsKey count) = Some xs"
    and "0 \<le> count" and "1 \<le> count \<or> xs = []"
  shows "s \<le> length xs \<Longrightarrow> parsedCursor cursor 0 = Num (int s) \<Longrightarrow> length xs - s < fuel \<Longrightarrow>
         forwardChain fuel es n count cursor st = Some (drop s xs, st)"
proof (induction fuel arbitrary: s cursor n)
  case 0
  then show ?case by simp
next
  case (Suc fuel)
  let ?p = "min count 20"
  define e where "e = min (int s + ?p) (int (length xs))"
  have p0: "0 \<le> ?p" using assms(2) by simp
  have fetch: "fetchMessagePreviews (es n) count cursor st = (previewsPage xs count cursor, st)"
    using assms(1) by (rule fetchMessagePreviews_hit)
  have page: "previewsPage xs count cursor =
      \<lparr> data = between xs (int s) e, hasMore = (e < int (length xs)),
        nextCursor = (if e < int (length xs) then Some (toString (Num e)) else None) \<rparr>"
    using previewsPage_nonneg[OF Suc.prems(2), where xs=xs and count=count] p0
    unfolding e_def by simp
  show ?case
  proof (cases "e < int (length xs)")
    case True
    then have lt: "int s + ?p < int (length xs)" and e: "e = int s + ?p"
      by (auto simp: e_def)
    from lt p0 have "xs \<noteq> []" by auto
    with assms(3) have p1: "1 \<le> ?p" by simp
    define s' where "s' = s + nat ?p"
    have s': "int s' = e" using e p0 by (simp add: s'_def)
    have le: "s' \<le> length xs" using lt s' e by linarith
    have gt: "s < s'" using p1 by (simp add: s'_def)
    have fuel: "length xs - s' < fuel" using Suc.prems(3) gt le by linarith
    have cur: "parsedCursor (Some (toString (Num e))) 0 = Num (int s')"
      by (simp only: s'[symmetric] parsedCursor_toString)
    have rest: "forwardChain fuel es (Suc n) count (Some (toString (Num e))) st
        = Some (drop s' xs, st)"
      using Suc.IH[OF le cur fuel] .
    have cat: "between xs (int s) e @ drop s' xs = drop s xs"
      using drop_take_append_drop[of s s' xs] gt
      by (simp add: between_drop_take s'[symmetric])
    show ?thesis
      using True by (simp add: fetch page rest cat)
  next
    case False
    then have e: "e = int (length xs)" by (auto simp: e_def)
    have "between xs (int s) e = drop s xs"
      by (simp only: e between_drop_take nat_int take_all order_refl)
    with False show ?thesis
      by (simp add: fetch page)
  qed
qed

text \<open>The cursor chain of a conversation over an existing entry: from the position
  \<open>t\<close> down, it collects the front of the entry.\<close>

lemma backwardChain_from:
  assumes "chatCache st (chatKey convId) = Some xs"
    and "0 \<le> count" and "1 \<le> count \<or> xs = []"
  shows "t \<le> length xs \<Longrightarrow> parsedCursor cursor (int (length xs)) = Num (int t) \<Longrightarrow> t < fuel \<Longrightarrow>
         backwardChain fuel es n convId count cursor st = Some (take t xs, st)"
proof (induction fuel arbitrary: t cursor n)
  case 0
  then show ?case by simp
next
  case (Suc fuel)
  let ?p = "min count 20"
  define b where "b = max (int t - ?p) 0"
  have p0: "0 \<le> ?p" using assms(2) by simp
  have fetch: "fetchChatMessages (es n) convId count cursor st = (chatPage xs count cursor, st)"
    using assms(1) by (rule fetchChatMessages_hit)
  have page: "chatPage xs count cursor =
      \<lparr> data = between xs b (int t), hasMore = (b > 0),
        nextCursor = (if b > 0 then Some (toString (Num b)) else None) \<rparr>"
    using chatPage_nonneg[OF Suc.prems(2), where count=count]
    unfolding b_def by simp
  show ?case
  proof (cases "b > 0")
    case True
    then have s: "b = int t - ?p" and pos: "0 < int t - ?p"
      by (auto simp: b_def)
    from pos Suc.prems(1) p0 have "xs \<noteq> []" by auto
    with assms(3) have p1: "1 \<le> ?p" by simp
    define t' where "t' = t - nat ?p"
    have t': "int t' = b" using s pos p0 by (simp add: t'_def)
    have lt: "t' < t" using p1 pos by (simp add: t'_def)
    have le: "t' \<le> length xs" using lt Suc.prems(1) by linarith
    have fuel: "t' < fuel" using Suc.prems(3) lt by linarith
    have cur: "parsedCursor (Some (toString (Num b))) (int (length xs)) = Num (int t')"
      by (simp only: t'[symmetric] parsedCursor_toString)
    have rest: "backwardChain fuel es (Suc n) convId count (Some (toString (Num b))) st
        = Some (take t' xs, st)"
      using Suc.IH[OF le cur fuel] .
    have cat: "take t' xs @ between xs b (int t) = take t xs"
      using take_append_drop_take[of t' t xs] lt
      by (simp add: between_drop_take t'[symmetric])
    show ?thesis
      using True by (simp add: fetch page rest cat)
  next
    case False
    then have s: "b = 0" by (auto simp: b_def)
    have "between xs b (int t) = take t xs"
      by (simp only: s between_drop_take nat_int nat_0 drop_0)
    with False show ?thesis
      by (simp add: fetch page)
  qed
qed

text \<open>The first call of a chain creates the entry; from then on the chain runs over it.\<close>

lemma forwardChain_miss:
  assumes "messageCache st (previewsKey count) = None"
  shows "forwardChain fuel es n count cursor st =
         forwardChain fuel es n count cursor
           (st\<lparr> messageCache := (messageCache st)
                 (previewsKey count \<mapsto> generateMessagePreviews (es n) (count * 3)) \<rparr>)"
proof (cases fuel)
  case 0
  then show ?thesis by simp
next
  case (Suc f)
  let ?st1 = "st\<lparr> messageCache := (messageCache st)
                 (previewsKey count \<mapsto> generateMessagePreviews (es n) (count * 3)) \<rparr>"
  have hit: "messageCache ?st1 (previewsKey count)
      = Some (generateMessagePreviews (es n) (count * 3))" by simp
  show ?thesis
    unfolding Suc forwardChain.simps
      fetchMessagePreviews_miss[OF assms] fetchMessagePreviews_hit[OF hit] ..
qed

lemma backwardChain_miss:
  assumes "chatCache st (chatKey convId) = None"
  shows "backwardChain fuel es n convId count cursor st =
         backwardChain fuel es n convId count cursor
           (st\<lparr> chatCache := (chatCache st)
                 (chatKey convId \<mapsto> generateChatMessages (es n) convId (count * 3)) \<rparr>)"
proof (cases fuel)
  case 0
  then show ?thesis by simp
next
  case (Suc f)
  let ?st1 = "st\<lparr> chatCache := (chatCache st)
                 (chatKey convId \<mapsto> generateChatMessages (es n) convId (count * 3)) \<rparr>"
  have hit: "chatCache ?st1 (chatKey convId)
      = Some (generateChatMessages (es n) convId (count * 3))" by simp
  show ?thesis
    unfolding Suc backwardChain.simps
      fetchChatMessages_miss[OF assms] fetchChatMessages_hit[OF hit] ..
qed

lemma previewsPage_more:
  assumes "parsedCursor cursor 0 = Num s"
  shows "hasMore (previewsPage xs count cursor)
           = (min (s + min count 20) (int (length xs)) < int (length xs))
       \<and> nextCursor (previewsPage xs count cursor)
           = (if min (s + min count 20) (int (length xs)) < int (length xs)
              then Some (toString (Num (min (s + min count 20) (int (length xs))))) else None)"
  unfolding previewsPage_def Let_def startIndex_parsed[OF assms] by simp

text \<open>With a negative count over the empty entry, every page announces a further page.\<close>

lemma forwardChain_negative_count:
  assumes "messageCache st (previewsKey count) = Some []" and "count < 0"
  shows "parsedCursor cursor 0 = Num s \<Longrightarrow> s \<le> 0 \<Longrightarrow>
         forwardChain fuel es n count cursor st = None"
proof (induction fuel arbitrary: s cursor n)
  case 0
  then show ?case by simp
next
  case (Suc fuel)
  define e where "e = min (s + min count 20) (int (length ([] :: MessagePreview list)))"
  have neg: "e < 0" "e \<le> 0" using assms(2) Suc.prems(2) by (auto simp: e_def)
  have fetch: "fetchMessagePreviews (es n) count cursor st = (previewsPage [] count cursor, st)"
    using assms(1) by (rule fetchMessagePreviews_hit)
  have more: "hasMore (previewsPage ([] :: MessagePreview list) count cursor)"
    and nxt: "nextCursor (previewsPage ([] :: MessagePreview list) count cursor)
                = Some (toString (Num e))"
    using previewsPage_more[OF Suc.prems(1), where xs="[] :: MessagePreview list" and count=count] neg
    unfolding e_def by simp_all
  have "forwardChain fuel es (Suc n) count (Some (toString (Num e))) st = None"
    using Suc.IH[OF parsedCursor_toString neg(2)] .
  then show ?case
    by (simp add: fetch more nxt)
qed

text \<open>
  C3 (as stated) fails for a negative count: the chain of cursors never ends. For
  \<open>count = -1\<close> the entry is generated empty, the page size is \<open>-1\<close>, and every page
  has an end index below 0, hence \<open>hasMore\<close> true and a next cursor (\<open>"-1"\<close>, \<open>"-2"\<close>,
  ...): no number of calls reaches a page with \<open>hasMore\<close> false.
\<close>

theorem C3_negative_count_counterexample:
  "\<not> (\<exists>fuel. forwardChain fuel (\<lambda>n. exampleEnv) 0 (- 1) None emptyCaches \<noteq> None)"
proof -
  let ?st1 = "emptyCaches\<lparr> messageCache := (messageCache emptyCaches)
                 (previewsKey (- 1) \<mapsto> generateMessagePreviews exampleEnv (- 1 * 3)) \<rparr>"
  have miss: "messageCache emptyCaches (previewsKey (- 1)) = None"
    by (simp add: emptyCaches_def)
  have "length (generateMessagePreviews exampleEnv (- 1 * 3)) = 0"
    by (simp add: length_generateMessagePreviews)
  then have hit: "messageCache ?st1 (previewsKey (- 1)) = Some []" by simp
  have "forwardChain fuel (\<lambda>n. exampleEnv) 0 (- 1) None emptyCaches = None" for fuel
    unfolding forwardChain_miss[OF miss]
    by (rule forwardChain_negative_count[OF hit _ parsedCursor_None]) simp_all
  then show ?thesis by simp
qed

text \<open>
  C3 (amended). For every count that is not negative, starting without a cache entry for
  the key (in particular from an empty cache) and with no other call in between:
  calling \<open>fetchMessagePreviews(count, cursor)\<close> along the returned cursors until
  \<open>hasMore\<close> is false ends after at most \<open>3 * count + 1\<close> calls, and the pages in their
  order concatenate to exactly the generated sequence stored in the cache; calling
  \<open>fetchChatMessages\<close> the same way, each page put in front of the pages fetched before,
  ends likewise and rebuilds exactly the stored sequence, oldest first. Equality with
  the stored sequence says that no item is missing and none is repeated.
\<close>

theorem C3_cursor_chain_coverage:
  assumes "0 \<le> count" and "nat (3 * count) < fuel"
  shows "(messageCache st (previewsKey count) = None \<longrightarrow>
            forwardChain fuel es n count None st
              = Some (generateMessagePreviews (es n) (count * 3),
                      st\<lparr> messageCache := (messageCache st)
                            (previewsKey count \<mapsto> generateMessagePreviews (es n) (count * 3)) \<rparr>))
       \<and> (chatCache st (chatKey convId) = None \<longrightarrow>
            backwardChain fuel es n convId count None st
              = Some (generateChatMessages (es n) convId (count * 3),
                      st\<lparr> chatCache := (chatCache st)
                            (chatKey convId \<mapsto> generateChatMessages (es n) convId (count * 3)) \<rparr>))"
proof (intro conjI impI)
  assume miss: "messageCache st (previewsKey count) = None"
  let ?g = "generateMessagePreviews (es n) (count * 3)"
  let ?st1 = "st\<lparr> messageCache := (messageCache st)(previewsKey count \<mapsto> ?g) \<rparr>"
  have len: "length ?g = nat (3 * count)"
    by (simp add: length_generateMessagePreviews mult.commute)
  have hit: "messageCache ?st1 (previewsKey count) = Some ?g" by simp
  have small: "1 \<le> count \<or> ?g = []"
    using assms(1) len by (cases "count = 0") auto
  have cur: "parsedCursor None 0 = Num (int 0)" by (simp add: parsedCursor_None)
  have "forwardChain fuel es n count None ?st1 = Some (drop 0 ?g, ?st1)"
    using assms(2) by (intro forwardChain_from[OF hit assms(1) small _ cur]) (simp_all add: len)
  then show "forwardChain fuel es n count None st = Some (?g, ?st1)"
    unfolding forwardChain_miss[OF miss] by simp
next
  assume miss: "chatCache st (chatKey convId) = None"
  let ?g = "generateChatMessages (es n) convId (count * 3)"
  let ?st1 = "st\<lparr> chatCache := (chatCache st)(chatKey convId \<mapsto> ?g) \<rparr>"
  have len: "length ?g = nat (3 * count)"
    by (simp add: length_generateChatMessages mult.commute)
  have hit: "chatCache ?st1 (chatKey convId) = Some ?g" by simp
  have small: "1 \<le> count \<or> ?g = []"
    using assms(1) len by (cases "count = 0") auto
  have cur: "parsedCursor None (int (length ?g)) = Num (int (length ?g))"
    by (simp add: parsedCursor_None)
  have "backwardChain fuel es n convId count None ?st1 = Some (take (length ?g) ?g, ?st1)"
    using assms(2) by (intro backwardChain_from[OF hit assms(1) small _ cur]) (simp_all add: len)
  then show "backwardChain fuel es n convId count None st = Some (?g, ?st1)"
    unfolding backwardChain_miss[OF miss] by simp
qed

theorem C3_cursor_chain_coverage_witness:
  "(0::int) \<le> 2 \<and> nat (3 * 2) < 7
   \<and> forwardChain 7 (\<lambda>n. exampleEnv) 0 2 None emptyCaches
       = Some (generateMessagePreviews exampleEnv (2 * 3),
               emptyCaches\<lparr> messageCache := (messageCache emptyCaches)
                 (previewsKey 2 \<mapsto> generateMessagePreviews exampleEnv (2 * 3)) \<rparr>)
   \<and> backwardChain 7 (\<lambda>n. exampleEnv) 0 ''c1'' 2 None emptyCaches
       = Some (generateChatMessages exampleEnv ''c1'' (2 * 3),
               emptyCaches\<lparr> chatCache := (chatCache emptyCaches)
                 (chatKey ''c1'' \<mapsto> generateChatMessages exampleEnv ''c1'' (2 * 3)) \<rparr>)"
proof -
  have a: "(0::int) \<le> 2" and b: "nat (3 * 2) < 7" by simp_all
  have m: "messageCache emptyCaches (previewsKey 2) = None"
    and c: "chatCache emptyCaches (chatKey ''c1'') = None"
    by (simp_all add: emptyCaches_def)
  note t = C3_cursor_chain_coverage[OF a b, of emptyCaches "\<lambda>n. exampleEnv" 0 "''c1''"]
  from t m have f: "forwardChain 7 (\<lambda>n. exampleEnv) 0 2 None emptyCaches
       = Some (generateMessagePreviews exampleEnv (2 * 3),
               emptyCaches\<lparr> messageCache := (messageCache emptyCaches)
                 (previewsKey 2 \<mapsto> generateMessagePreviews exampleEnv (2 * 3)) \<rparr>)"
    by blast
  from t c have g: "backwardChain 7 (\<lambda>n. exampleEnv) 0 ''c1'' 2 None emptyCaches
       = Some (generateChatMessages exampleEnv ''c1'' (2 * 3),
               emptyCaches\<lparr> chatCache := (chatCache emptyCaches)
                 (chatKey ''c1'' \<mapsto> generateChatMessages exampleEnv ''c1'' (2 * 3)) \<rparr>)"
    by blast
  from a b f g show ?thesis by blast
qed

lemma loadMoreChatMessages_invoke_blocked:
  "chatLoadingMoreRef c \<or> \<not> chatHasMore c \<or> \<not> truthy (chatCursor c)
     \<or> selectedConversation c = None \<Longrightarrow> loadMoreChatMessages_invoke c = (None, c)"
  by (auto simp: loadMoreChatMessages_invoke_def)

lemma loadMoreChatMessages_invoke_issues:
  "\<not> (chatLoadingMoreRef c \<or> \<not> chatHasMore c \<or> \<not> truthy (chatCursor c)
       \<or> selectedConversation c = None) \<Longrightarrow>
   loadMoreChatMessages_invoke c =
     (Some (preview_id (the (selectedConversation c)), 20, chatCursor c),
      c\<lparr> chatLoadingMoreRef := True, chatLoadingMore := True \<rparr>)"
  by (simp add: loadMoreChatMessages_invoke_def)

lemma loadMoreChatMessages_times_guarded:
  "chatLoadingMoreRef c \<Longrightarrow> loadMoreChatMessages_times n c = ([], c)"
  by (induction n) (simp_all add: loadMoreChatMessages_invoke_blocked)

lemma loadMoreChatMessages_times_blocked:
  "chatLoadingMoreRef c \<or> \<not> chatHasMore c \<or> \<not> truthy (chatCursor c)
     \<or> selectedConversation c = None \<Longrightarrow> loadMoreChatMessages_times n c = ([], c)"
  by (induction n) (simp_all add: loadMoreChatMessages_invoke_blocked)

lemma loadMoreChatMessages_times_issues:
  assumes "\<not> (chatLoadingMoreRef c \<or> \<not> chatHasMore c \<or> \<not> truthy (chatCursor c)
       \<or> selectedConversation c = None)"
  shows "loadMoreChatMessages_times (Suc n) c =
     ([(preview_id (the (selectedConversation c)), 20, chatCursor c)],
      c\<lparr> chatLoadingMoreRef := True, chatLoadingMore := True \<rparr>)"
  by (simp add: loadMoreChatMessages_invoke_issues[OF assms] loadMoreChatMessages_times_guarded)

text \<open>
  C5. In every state of the conversation sheet, an invocation of \<open>loadMoreChatMessages\<close>
  while the guard \<open>chatLoadingMoreRef\<close> is set, or \<open>chatHasMore\<close> is false, or the cursor
  is absent (or empty), or no conversation is selected, issues no fetch and changes
  nothing. In every other state it issues the one fetch
  \<open>fetchChatMessages(selectedConversation.id, 20, chatCursor)\<close> and sets the guard before
  it awaits. Hence a second invocation before the fetch settles issues no fetch, and any
  number of invocations before the fetch settles issue one fetch when the first of them
  was let through and none otherwise. Sending a message does not touch the guard. When
  the fetch settles, resolved or rejected, the guard is cleared (and \<open>chatLoadingMore\<close>
  with it), in both versions of the sheet.
\<close>

theorem C5_single_flight:
  "(chatLoadingMoreRef c \<or> \<not> chatHasMore c \<or> \<not> truthy (chatCursor c)
      \<or> selectedConversation c = None
    \<longrightarrow> loadMoreChatMessages_invoke c = (None, c)
        \<and> loadMoreChatMessages_times n c = ([], c))
   \<and> (\<not> (chatLoadingMoreRef c \<or> \<not> chatHasMore c \<or> \<not> truthy (chatCursor c)
          \<or> selectedConversation c = None)
    \<longrightarrow> loadMoreChatMessages_invoke c
          = (Some (preview_id (the (selectedConversation c)), 20, chatCursor c),
             c\<lparr> chatLoadingMoreRef := True, chatLoadingMore := True \<rparr>)
        \<and> loadMoreChatMessages_times (Suc (Suc n)) c
          = ([(preview_id (the (selectedConversation c)), 20, chatCursor c)],
             c\<lparr> chatLoadingMoreRef := True, chatLoadingMore := True \<rparr>))
   \<and> fst (loadMoreChatMessages_invoke (snd (loadMoreChatMessages_invoke c))) = None
   \<and> length (fst (loadMoreChatMessages_times n c)) \<le> 1
   \<and> chatLoadingMoreRef (snd (handleSendMessage_invoke c)) = chatLoadingMoreRef c
   \<and> chatLoadingMoreRef (handleSendMessage_settle v txt sent c) = chatLoadingMoreRef c
   \<and> \<not> chatLoadingMoreRef (loadMoreChatMessages_settle v result c)
   \<and> \<not> chatLoadingMore (loadMoreChatMessages_settle v result c)"
proof -
  let ?blocked = "chatLoadingMoreRef c \<or> \<not> chatHasMore c \<or> \<not> truthy (chatCursor c)
      \<or> selectedConversation c = None"
  have second: "fst (loadMoreChatMessages_invoke (snd (loadMoreChatMessages_invoke c))) = None"
  proof (cases ?blocked)
    case True
    then show ?thesis by (simp add: loadMoreChatMessages_invoke_blocked)
  next
    case False
    show ?thesis
      unfolding loadMoreChatMessages_invoke_issues[OF False]
      by (simp add: loadMoreChatMessages_invoke_blocked)
  qed
  have atmost: "length (fst (loadMoreChatMessages_times n c)) \<le> 1"
  proof (cases ?blocked)
    case True
    then show ?thesis by (simp add: loadMoreChatMessages_times_blocked)
  next
    case False
    show ?thesis
    proof (cases n)
      case 0
      then show ?thesis by simp
    next
      case (Suc m)
      show ?thesis
        unfolding Suc loadMoreChatMessages_times_issues[OF False] by simp
    qed
  qed
  have send1: "chatLoadingMoreRef (snd (handleSendMessage_invoke c)) = chatLoadingMoreRef c"
    by (simp add: handleSendMessage_invoke_def Let_def)
  have send2: "chatLoadingMoreRef (handleSendMessage_settle v txt sent c) = chatLoadingMoreRef c"
    by (cases sent) (simp_all add: handleSendMessage_settle_def)
  have cleared: "\<not> chatLoadingMoreRef (loadMoreChatMessages_settle v result c)"
    "\<not> chatLoadingMore (loadMoreChatMessages_settle v result c)"
    by (simp_all add: loadMoreChatMessages_settle_def Let_def)
  have blocked: "?blocked
    \<longrightarrow> loadMoreChatMessages_invoke c = (None, c)
        \<and> loadMoreChatMessages_times n c = ([], c)"
    using loadMoreChatMessages_invoke_blocked[of c] loadMoreChatMessages_times_blocked[of c n]
    by (intro impI conjI)
  have issues: "\<not> ?blocked
    \<longrightarrow> loadMoreChatMessages_invoke c
          = (Some (preview_id (the (selectedConversation c)), 20, chatCursor c),
             c\<lparr> chatLoadingMoreRef := True, chatLoadingMore := True \<rparr>)
        \<and> loadMoreChatMessages_times (Suc (Suc n)) c
          = ([(preview_id (the (selectedConversation c)), 20, chatCursor c)],
             c\<lparr> chatLoadingMoreRef := True, chatLoadingMore := True \<rparr>)"
    using loadMoreChatMessages_invoke_issues[of c] loadMoreChatMessages_times_issues[of c "Suc n"]
    by (intro impI conjI)
  show ?thesis
    by (intro conjI) (fact blocked issues second atmost send1 send2 cleared)+
qed

lemma exampleController_fields:
  "\<not> chatLoadingMoreRef exampleController" "chatHasMore exampleController"
  "chatCursor exampleController = Some ''40''"
  "selectedConversation exampleController = Some examplePreview"
  "inputText exampleController = '' hi ''"
  "chatMessages exampleController = generateChatMessages exampleEnv ''c1'' 2"
  by (simp_all add: exampleController_def)

lemma trim_example: "trim '' hi '' = ''hi''"
  by (simp add: trim_def isWhiteSpace_def)

theorem C5_single_flight_witness:
  "fst (loadMoreChatMessages_invoke exampleController)
     = Some (preview_id examplePreview, 20, Some ''40'')
   \<and> fst (loadMoreChatMessages_times (Suc (Suc 0)) exampleController)
     = [(preview_id examplePreview, 20, Some ''40'')]
   \<and> fst (loadMoreChatMessages_invoke (snd (loadMoreChatMessages_invoke exampleController)))
     = None
   \<and> loadMoreChatMessages_invoke (exampleController\<lparr> chatHasMore := False \<rparr>)
     = (None, exampleController\<lparr> chatHasMore := False \<rparr>)
   \<and> \<not> chatLoadingMoreRef (loadMoreChatMessages_settle Chronological Rejected
         (snd (loadMoreChatMessages_invoke exampleController)))"
proof -
  have ok: "\<not> (chatLoadingMoreRef exampleController \<or> \<not> chatHasMore exampleController
      \<or> \<not> truthy (chatCursor exampleController)
      \<or> selectedConversation exampleController = None)"
    by (simp add: exampleController_fields)
  have blocked: "chatLoadingMoreRef (exampleController\<lparr> chatHasMore := False \<rparr>)
      \<or> \<not> chatHasMore (exampleController\<lparr> chatHasMore := False \<rparr>)
      \<or> \<not> truthy (chatCursor (exampleController\<lparr> chatHasMore := False \<rparr>))
      \<or> selectedConversation (exampleController\<lparr> chatHasMore := False \<rparr>) = None"
    by simp
  note t1 = C5_single_flight[of exampleController 0]
  note t2 = C5_single_flight[of "exampleController\<lparr> chatHasMore := False \<rparr>" 0]
  note t3 = C5_single_flight[where c="snd (loadMoreChatMessages_invoke exampleController)"
      and v=Chronological and result=Rejected]
  note ab = t1[THEN conjunct2, THEN conjunct1, THEN mp, OF ok]
  note a = ab[THEN conjunct1] and b = ab[THEN conjunct2]
  note c = t1[THEN conjunct2, THEN conjunct2, THEN conjunct1]
  note d = t2[THEN conjunct1, THEN mp, OF blocked, THEN conjunct1]
  note e = t3[THEN conjunct2, THEN conjunct2, THEN conjunct2, THEN conjunct2, THEN conjunct2,
      THEN conjunct2, THEN conjunct1]
  show ?thesis
    using a b c d e by (simp add: exampleController_fields)
qed

text \<open>
  C6 (as stated) fails when the typed text has white space at an end. With the input
  \<open>" hi "\<close> and a rejected send, both versions of the sheet leave \<open>"hi"\<close> in the input:
  the handler restores \<open>text\<close>, the trimmed string that it sent.
\<close>

theorem C6_restored_text_counterexample:
  "trim (inputText exampleController) \<noteq> []
   \<and> selectedConversation exampleController = Some examplePreview
   \<and> inputText exampleController = '' hi ''
   \<and> inputText (handleSendMessage Chronological Rejected exampleController) = ''hi''
   \<and> inputText (handleSendMessage Inverted Rejected exampleController) = ''hi''
   \<and> inputText (handleSendMessage Chronological Rejected exampleController)
       \<noteq> inputText exampleController"
  by (simp add: handleSendMessage_def handleSendMessage_invoke_def handleSendMessage_settle_def
      exampleController_fields trim_example)

text \<open>
  C6 (amended). For every input text that is not blank and every open conversation, the
  handler sends the trimmed text and clears the input; if the send is rejected, then after
  the handler has settled the input text equals the originally typed text with the white
  space at both ends removed (so it equals the typed text when that has none), and
  \<open>chatMessages\<close> is unchanged, in both versions of the sheet. This also holds when other
  handlers ran while the send was in flight: the rejection sets the input text of the
  state it meets and leaves its \<open>chatMessages\<close> alone.
\<close>

theorem C6_send_failure_restores_text:
  assumes "trim (inputText c) \<noteq> []" and "selectedConversation c = Some conv"
  shows "handleSendMessage_invoke c
           = (Some (preview_id conv, trim (inputText c)), c\<lparr> inputText := [] \<rparr>)
       \<and> inputText (handleSendMessage v Rejected c) = trim (inputText c)
       \<and> chatMessages (handleSendMessage v Rejected c) = chatMessages c
       \<and> (trim (inputText c) = inputText c
            \<longrightarrow> inputText (handleSendMessage v Rejected c) = inputText c)
       \<and> inputText (handleSendMessage_settle v (trim (inputText c)) Rejected c')
            = trim (inputText c)
       \<and> chatMessages (handleSendMessage_settle v (trim (inputText c)) Rejected c')
            = chatMessages c'"
proof -
  have inv: "handleSendMessage_invoke c
           = (Some (preview_id conv, trim (inputText c)), c\<lparr> inputText := [] \<rparr>)"
    using assms by (simp add: handleSendMessage_invoke_def Let_def)
  have whole: "handleSendMessage v Rejected c = c\<lparr> inputText := trim (inputText c) \<rparr>"
    by (simp add: handleSendMessage_def inv handleSendMessage_settle_def)
  have later: "handleSendMessage_settle v (trim (inputText c)) Rejected c'
      = c'\<lparr> inputText := trim (inputText c) \<rparr>"
    by (simp add: handleSendMessage_settle_def)
  show ?thesis
    by (simp add: inv whole later)
qed

theorem C6_send_failure_restores_text_witness:
  "trim (inputText exampleController) \<noteq> []
   \<and> selectedConversation exampleController = Some examplePreview
   \<and> fst (handleSendMessage_invoke exampleController) = Some (preview_id examplePreview, ''hi'')
   \<and> inputText (handleSendMessage Inverted Rejected exampleController) = ''hi''
   \<and> chatMessages (handleSendMessage Inverted Rejected exampleController)
       = chatMessages exampleController"
proof -
  have a: "trim (inputText exampleController) \<noteq> []"
    by (simp add: exampleController_fields trim_example)
  have b: "selectedConversation exampleController = Some examplePreview"
    by (simp add: exampleController_fields)
  from C6_send_failure_restores_text[OF a b, of Inverted] a b
  show ?thesis
    by (simp add: exampleController_fields trim_example)
qed

end
